theory Spec2Isabelle
  imports Complex_Main "HOL-Library.Log_Nat" "HOL-Library.Word"
begin

section \<open>Common conventions\<close>

text \<open>
  The axle-load calculators are modelled on the numbers Python and numpy compute with: a
  Python int is an integer, a numpy int64 is an integer that wraps around at 64 bits, and
  a float is the rational number it denotes, every operation rounding its exact result to
  the nearest double.  The equal-pair formula is given in exact arithmetic over \<open>rat\<close> as
  well, which is the reading of the formula itself.  The performance analysis is modelled
  in exact arithmetic over \<open>real\<close> (it needs \<open>arcsin\<close>); there only the Python type of
  the maximum speed, int or float, is kept.  Infinities, NaN and the overflow of doubles are
  outside the model.  Console output is modelled as a list of structured messages; the
  banner printed by the constructors and the report lines of \<open>find_special_points\<close> are
  represented by the values they print.
\<close>

datatype error =
    ZeroDivisionError   \<comment> \<open>Python division by zero, and numpy's arange with step 0\<close>
  | ValueError          \<comment> \<open>max() of an empty sequence, numpy on empty or mismatched arrays\<close>
  | KeyError            \<comment> \<open>a dict lookup with a missing key\<close>
  | IndexError          \<comment> \<open>an array index out of bounds\<close>
  | InvalidRange        \<comment> \<open>error kind named by the specification; no source line raises it\<close>
  | InvalidInput        \<comment> \<open>error kind named by the specification; no source line raises it\<close>

datatype message =
    NegativeLoadWarning rat          \<comment> \<open>calculate.py line 58\<close>
  | NearZeroDenominatorWarning rat   \<comment> \<open>calculate\_new.py line 62\<close>
  | AnalysisStart                    \<comment> \<open>first line printed by analyze\_load\_distribution\<close>
  | KeyPositionLine rat rat rat      \<comment> \<open>cg position, front total, rear total\<close>

section \<open>Python and numpy numbers\<close>

subsection \<open>Doubles\<close>

text \<open>
  A finite double is a rational \<open>m * 2\<^sup>e\<close> with \<open>\<bar>m\<bar> < 2\<^sup>5\<^sup>3\<close>.  \<open>round_double\<close> is IEEE 754
  rounding to nearest, ties to even: \<open>float_exponent x\<close> is the \<open>e\<close> with
  \<open>2\<^sup>e \<le> \<bar>x\<bar> < 2\<^sup>e\<^sup>+\<^sup>1\<close>, one unit in the last place is \<open>2\<^sup>e\<^sup>-\<^sup>5\<^sup>2\<close>, and \<open>x\<close> is rounded to
  a whole number of units.  The exponent is not bounded: overflow to infinity and the
  subnormal numbers are not modelled.
\<close>

definition round_half_even :: "rat \<Rightarrow> int" where
  "round_half_even s =
     (let fl = \<lfloor>s\<rfloor>; frac = s - of_int fl
      in if frac < 1 / 2 then fl
         else if frac > 1 / 2 then fl + 1
         else if even fl then fl else fl + 1)"

definition float_exponent :: "rat \<Rightarrow> int" where
  "float_exponent x =
     (let (p, q) = quotient_of \<bar>x\<bar>; e = bitlen p - bitlen q
      in if 2 powi e \<le> \<bar>x\<bar> then e else e - 1)"

definition round_double :: "rat \<Rightarrow> rat" where
  "round_double x =
     (if x = 0 then 0
      else let ulp = 2 powi (float_exponent x - 52)
           in of_int (round_half_even (x / ulp)) * ulp)"

subsection \<open>Values and arithmetic\<close>

text \<open>
  The three kinds of number the calculators meet.  A caller passes a Python int or a float
  as the offset; the sweep passes the elements of \<open>np.arange\<close>, which are numpy int64 for
  an integer range.  \<open>Float\<close> stands for Python's float and numpy's float64 alike.
\<close>

datatype number = PyInt int | NpInt64 int | Float rat

fun val :: "number \<Rightarrow> rat" where
  "val (PyInt n) = of_int n"
| "val (NpInt64 n) = of_int n"
| "val (Float x) = x"

text \<open>Two's complement wrap-around to 64 bits.\<close>

definition wrap64 :: "int \<Rightarrow> int" where
  "wrap64 n = (n + 2 ^ 63) mod 2 ^ 64 - 2 ^ 63"

text \<open>The conversion of an operand to double, which rounds an integer above \<open>2\<^sup>5\<^sup>3\<close>.\<close>

fun to_double :: "number \<Rightarrow> rat" where
  "to_double (PyInt n) = round_double (of_int n)"
| "to_double (NpInt64 n) = round_double (of_int n)"
| "to_double (Float x) = x"

text \<open>
  \<open>+\<close>, \<open>-\<close> and \<open>*\<close>: exact on two Python ints; in int64 with wrap-around when a numpy
  int64 meets an integer (the Python ints of this program are small constants, which
  numpy converts to int64); in double, both operands converted and the result rounded, as
  soon as one operand is a float.
\<close>

fun arith :: "(int \<Rightarrow> int \<Rightarrow> int) \<Rightarrow> (rat \<Rightarrow> rat \<Rightarrow> rat) \<Rightarrow> number \<Rightarrow> number \<Rightarrow> number" where
  "arith int_op rat_op (PyInt m) (PyInt n) = PyInt (int_op m n)"
| "arith int_op rat_op (PyInt m) (NpInt64 n) = NpInt64 (wrap64 (int_op m n))"
| "arith int_op rat_op (NpInt64 m) (PyInt n) = NpInt64 (wrap64 (int_op m n))"
| "arith int_op rat_op (NpInt64 m) (NpInt64 n) = NpInt64 (wrap64 (int_op m n))"
| "arith int_op rat_op (Float x) b = Float (round_double (rat_op x (to_double b)))"
| "arith int_op rat_op a (Float y) = Float (round_double (rat_op (to_double a) y))"

definition num_add :: "number \<Rightarrow> number \<Rightarrow> number" where
  "num_add = arith (+) (+)"

definition num_sub :: "number \<Rightarrow> number \<Rightarrow> number" where
  "num_sub = arith (-) (-)"

definition num_mul :: "number \<Rightarrow> number \<Rightarrow> number" where
  "num_mul = arith (*) (*)"

text \<open>
  \<open>x ** 2\<close>.  On a float Python calls the C library's \<open>pow\<close>, whose last bit IEEE 754
  does not fix; the model takes the correctly rounded square.
\<close>

fun num_pow2 :: "number \<Rightarrow> number" where
  "num_pow2 (PyInt n) = PyInt (n * n)"
| "num_pow2 (NpInt64 n) = NpInt64 (wrap64 (n * n))"
| "num_pow2 (Float x) = Float (round_double (x * x))"

text \<open>
  True division \<open>/\<close> always gives a float: the correctly rounded quotient of two Python
  ints, and otherwise the rounded quotient of the operands converted to double.  A zero
  divisor raises for Python numbers; on numpy numbers it gives an infinity or NaN with a
  warning, which the model does not represent (the constructed vehicle never divides by
  zero).
\<close>

fun quotient :: "number \<Rightarrow> number \<Rightarrow> rat" where
  "quotient (PyInt m) (PyInt n) = round_double (of_int m / of_int n)"
| "quotient a b = round_double (to_double a / to_double b)"

definition num_truediv :: "number \<Rightarrow> number \<Rightarrow> error + number" where
  "num_truediv a b = (if val b = 0 then Inl ZeroDivisionError else Inr (Float (quotient a b)))"

text \<open>
  The built-in \<open>sum\<close>: from the int 0, adding the items from left to right.  (Python 3.12
  and later compensate the rounding when the items are Python floats; numpy floats and
  earlier versions are added as here.)
\<close>

definition py_sum :: "number list \<Rightarrow> number" where
  "py_sum xs = foldl num_add (PyInt 0) xs"

section \<open>calculate.py and calculate\_new.py: class VehicleAxleLoadCalculator\<close>

record axle_positions =
  axle1 :: rat
  axle2 :: rat
  axle3 :: rat
  axle4 :: rat

record calculator =
  total_weight :: rat
  L1 :: rat
  L2 :: rat
  L3 :: rat
  axle_positions :: axle_positions

text \<open>The constructor \<open>__init__\<close>, the same in both files.\<close>

definition VehicleAxleLoadCalculator :: calculator where
  "VehicleAxleLoadCalculator =
     \<lparr> total_weight = 24700, L1 = 1800, L2 = 4800, L3 = 1400,
       axle_positions = \<lparr> axle1 = 0, axle2 = 1800, axle3 = 1800 + 4800,
                           axle4 = 1800 + 4800 + 1400 \<rparr> \<rparr>"

text \<open>
  An attribute as a Python number: a whole number is a Python int, which is what the
  constructor stores, and any other value a float.
\<close>

definition attr :: "rat \<Rightarrow> number" where
  "attr v = (if of_int \<lfloor>v\<rfloor> = v then PyInt \<lfloor>v\<rfloor> else Float (round_double v))"

text \<open>
  The dict returned by the load computations, holding the value of each number.  The first
  eight keys are shared; calculate.py adds \<open>front_per_axle\<close>, \<open>rear_per_axle\<close> and
  calculate\_new.py adds \<open>front_per_axle_avg\<close>, \<open>rear_per_axle_avg\<close>.
\<close>

record load_sample =
  cg_position :: rat
  cg_absolute :: rat
  axle1_load :: rat
  axle2_load :: rat
  axle3_load :: rat
  axle4_load :: rat
  front_total :: rat
  rear_total :: rat

record sample = load_sample +
  front_per_axle :: rat
  rear_per_axle :: rat

record sample_new = load_sample +
  front_per_axle_avg :: rat
  rear_per_axle_avg :: rat

subsection \<open>The equal-pair model in exact arithmetic\<close>



text \<open>
  The denominator \<open>4 S2 - S1\<^sup>2\<close> of the rigid-frame model in exact arithmetic, \<open>S1\<close> and
  \<open>S2\<close> being the sum and the sum of squares of the signed distances of the axles from the
  centre of gravity.
\<close>

definition denominator_exact :: "calculator \<Rightarrow> rat \<Rightarrow> rat" where
  "denominator_exact self d =
     (let p = axle_positions self;
          ds = map (\<lambda>x_i. x_i - (axle2 p + d)) [axle1 p, axle2 p, axle3 p, axle4 p]
      in 4 * sum_list (map (\<lambda>d_i. d_i ^ 2) ds) - (sum_list ds) ^ 2)"

subsection \<open>The equal-pair model on Python's numbers\<close>

text \<open>
  The same two functions as Python evaluates them, operation by operation, on an offset
  that is a Python int, a numpy int64 or a float.
\<close>

definition calculate_axle_loads_num :: "calculator \<Rightarrow> number \<Rightarrow> message list \<times> (error + sample)" where
  "calculate_axle_loads_num self cg_pos =
     (let cg_abs = num_add (attr (axle2 (axle_positions self))) cg_pos;
          W = attr (total_weight self);
          L1v = attr (L1 self);
          L2v = attr (L2 self);
          L3v = attr (L3 self);
          d = cg_pos;
          denominator = num_mul (PyInt 2) (num_add (num_add L1v (num_mul (PyInt 2) L2v)) L3v)
      in case num_truediv (num_mul W (num_add L1v (num_mul (PyInt 2) d))) denominator of
           Inl e \<Rightarrow> ([], Inl e)
         | Inr y \<Rightarrow>
             (case num_truediv (num_sub W (num_mul (PyInt 2) y)) (PyInt 2) of
                Inl e \<Rightarrow> ([], Inl e)
              | Inr x \<Rightarrow>
                  let out = (if val x < 0 \<or> val y < 0 then [NegativeLoadWarning (val cg_pos)]
                             else []);
                      front_axle_load = num_mul (PyInt 2) x;
                      rear_axle_load = num_mul (PyInt 2) y
                  in (out, Inr \<lparr> cg_position = val cg_pos, cg_absolute = val cg_abs,
                                  axle1_load = val x, axle2_load = val x,
                                  axle3_load = val y, axle4_load = val y,
                                  front_total = val front_axle_load,
                                  rear_total = val rear_axle_load,
                                  front_per_axle = val x, rear_per_axle = val y \<rparr>)))"

definition calculate_axle_loads_old_num ::
    "calculator \<Rightarrow> number \<Rightarrow> message list \<times> (error + sample_new)" where
  "calculate_axle_loads_old_num self cg_pos =
     (let cg_abs = num_add (attr (axle2 (axle_positions self))) cg_pos;
          W = attr (total_weight self);
          L1v = attr (L1 self);
          L2v = attr (L2 self);
          L3v = attr (L3 self);
          d = cg_pos;
          denominator = num_mul (PyInt 2) (num_add (num_add L1v (num_mul (PyInt 2) L2v)) L3v)
      in case num_truediv (num_mul W (num_add L1v (num_mul (PyInt 2) d))) denominator of
           Inl e \<Rightarrow> ([], Inl e)
         | Inr y \<Rightarrow>
             (case num_truediv (num_sub W (num_mul (PyInt 2) y)) (PyInt 2) of
                Inl e \<Rightarrow> ([], Inl e)
              | Inr x \<Rightarrow>
                  let front_axle_load = num_mul (PyInt 2) x;
                      rear_axle_load = num_mul (PyInt 2) y
                  in ([], Inr \<lparr> cg_position = val cg_pos, cg_absolute = val cg_abs,
                                 axle1_load = val x, axle2_load = val x,
                                 axle3_load = val y, axle4_load = val y,
                                 front_total = val front_axle_load,
                                 rear_total = val rear_axle_load,
                                 front_per_axle_avg = val x, rear_per_axle_avg = val y \<rparr>)))"

subsection \<open>calculate\_new.py: calculate\_axle\_loads\_new\_model\<close>

text \<open>The signed distances \<open>d1 .. d4\<close> of the axles from the centre of gravity.\<close>

definition d_list :: "calculator \<Rightarrow> number \<Rightarrow> number list" where
  "d_list self cg_pos =
     (let cg_abs = num_add (attr (axle2 (axle_positions self))) cg_pos;
          x1 = attr (axle1 (axle_positions self));
          x2 = attr (axle2 (axle_positions self));
          x3 = attr (axle3 (axle_positions self));
          x4 = attr (axle4 (axle_positions self))
      in [num_sub x1 cg_abs, num_sub x2 cg_abs, num_sub x3 cg_abs, num_sub x4 cg_abs])"

definition S1 :: "calculator \<Rightarrow> number \<Rightarrow> number" where
  "S1 self cg_pos = py_sum (d_list self cg_pos)"

definition S2 :: "calculator \<Rightarrow> number \<Rightarrow> number" where
  "S2 self cg_pos = py_sum (map num_pow2 (d_list self cg_pos))"

definition denominator_new :: "calculator \<Rightarrow> number \<Rightarrow> number" where
  "denominator_new self cg_pos =
     num_sub (num_mul (PyInt 4) (S2 self cg_pos)) (num_pow2 (S1 self cg_pos))"

text \<open>One load \<open>W * (S2 - S1 * d_i) / denominator\<close>.\<close>

definition axle_force :: "number \<Rightarrow> number \<Rightarrow> number \<Rightarrow> number \<Rightarrow> number \<Rightarrow> error + number" where
  "axle_force W S1v S2v d_i denominator =
     num_truediv (num_mul W (num_sub S2v (num_mul S1v d_i))) denominator"

text \<open>
  The threshold \<open>1e-10\<close> is the double nearest to \<open>10\<^sup>-\<^sup>1\<^sup>0\<close>.  Past the test the denominator
  is not zero, so that the divisions of the second branch do not raise.
\<close>

definition calculate_axle_loads_new_model ::
    "calculator \<Rightarrow> number \<Rightarrow> message list \<times> (error + sample_new)" where
  "calculate_axle_loads_new_model self cg_pos =
     (let cg_abs = num_add (attr (axle2 (axle_positions self))) cg_pos;
          ds = d_list self cg_pos;
          d1 = ds ! 0; d2 = ds ! 1; d3 = ds ! 2; d4 = ds ! 3;
          S1v = S1 self cg_pos;
          S2v = S2 self cg_pos;
          W = attr (total_weight self);
          denominator = denominator_new self cg_pos
      in if \<bar>val denominator\<bar> < round_double (1 / 10 ^ 10) then
           (case calculate_axle_loads_old_num self cg_pos of
              (out, res) \<Rightarrow> (NearZeroDenominatorWarning (val cg_pos) # out, res))
         else
           (case (axle_force W S1v S2v d1 denominator, axle_force W S1v S2v d2 denominator,
                  axle_force W S1v S2v d3 denominator, axle_force W S1v S2v d4 denominator) of
              (Inr F1, Inr F2, Inr F3, Inr F4) \<Rightarrow>
                (let front_axle_load = num_add F1 F2;
                     rear_axle_load = num_add F3 F4
                 in case (num_truediv front_axle_load (PyInt 2),
                          num_truediv rear_axle_load (PyInt 2)) of
                      (Inr front_avg, Inr rear_avg) \<Rightarrow>
                        ([], Inr \<lparr> cg_position = val cg_pos, cg_absolute = val cg_abs,
                                   axle1_load = val F1, axle2_load = val F2,
                                   axle3_load = val F3, axle4_load = val F4,
                                   front_total = val front_axle_load,
                                   rear_total = val rear_axle_load,
                                   front_per_axle_avg = val front_avg,
                                   rear_per_axle_avg = val rear_avg \<rparr>)
                    | _ \<Rightarrow> ([], Inl ZeroDivisionError))
            | _ \<Rightarrow> ([], Inl ZeroDivisionError)))"

subsection \<open>analyze\_load\_distribution (both files)\<close>

text \<open>
  \<open>numpy.arange(start, stop, step)\<close> on Python ints: the int64 values
  \<open>start + i * step\<close> for \<open>0 \<le> i < \<lceil>(stop - start) / step\<rceil>\<close> (none when that bound is
  not positive); a zero step makes numpy's length computation divide by zero, which
  raises.  numpy computes the bound in double, which is exact while the arguments are
  below \<open>2\<^sup>5\<^sup>3\<close>; arguments that do not fit int64, and lengths beyond the memory, are not
  modelled.  A range of floats goes through double arithmetic throughout and is not
  modelled either: the sweep is modelled for integer ranges and steps, as its default
  arguments and \<open>main\<close> use.
\<close>

definition arange :: "int \<Rightarrow> int \<Rightarrow> int \<Rightarrow> error + number list" where
  "arange start stop step =
     (if step = 0 then Inl ZeroDivisionError
      else Inr (map (\<lambda>i. NpInt64 (start + int i * step))
                  [0..<nat \<lceil>(of_int (stop - start) :: rat) / of_int step\<rceil>]))"

definition key_positions :: "rat list" where
  "key_positions = [0, 600, 1200, 1800, 2400, 3000, 3600, 4200, 4800]"

text \<open>
  The \<open>for cg_pos in cg_positions\<close> loop, with the load computation as a parameter: an
  exception of the computation ends the loop, otherwise the result is appended and the
  highlighted positions are printed.
\<close>

fun sweep_loop ::
    "(number \<Rightarrow> message list \<times> (error + 'a load_sample_scheme)) \<Rightarrow> number list
       \<Rightarrow> message list \<times> (error + 'a load_sample_scheme list)" where
  "sweep_loop compute [] = ([], Inr [])"
| "sweep_loop compute (cg_pos # rest) =
     (case compute cg_pos of
        (out, Inl e) \<Rightarrow> (out, Inl e)
      | (out, Inr result) \<Rightarrow>
          let line = (if val cg_pos \<in> set key_positions
                      then [KeyPositionLine (val cg_pos) (front_total result) (rear_total result)]
                      else [])
          in (case sweep_loop compute rest of
                (out', Inl e) \<Rightarrow> (out @ line @ out', Inl e)
              | (out', Inr results) \<Rightarrow> (out @ line @ out', Inr (result # results))))"

text \<open>calculate.py: the sweep over \<open>calculate_axle_loads\<close>.\<close>

definition analyze_load_distribution ::
    "calculator \<Rightarrow> int \<times> int \<Rightarrow> int \<Rightarrow> message list \<times> (error + sample list)" where
  "analyze_load_distribution self cg_range step =
     (case arange (fst cg_range) (snd cg_range + step) step of
        Inl e \<Rightarrow> ([AnalysisStart], Inl e)
      | Inr cg_positions \<Rightarrow>
          (case sweep_loop (calculate_axle_loads_num self) cg_positions of
             (out, res) \<Rightarrow> (AnalysisStart # out, res)))"

text \<open>calculate\_new.py: the sweep over \<open>calculate_axle_loads_new_model\<close>.\<close>

definition analyze_load_distribution_new ::
    "calculator \<Rightarrow> int \<times> int \<Rightarrow> int \<Rightarrow> message list \<times> (error + sample_new list)" where
  "analyze_load_distribution_new self cg_range step =
     (case arange (fst cg_range) (snd cg_range + step) step of
        Inl e \<Rightarrow> ([AnalysisStart], Inl e)
      | Inr cg_positions \<Rightarrow>
          (case sweep_loop (calculate_axle_loads_new_model self) cg_positions of
             (out, res) \<Rightarrow> (AnalysisStart # out, res)))"

subsection \<open>find\_special\_points (both files)\<close>

text \<open>
  The search loop keeps \<open>(min_diff, equilibrium_point)\<close>; \<open>min_diff\<close> starts at
  \<open>float('inf')\<close>, written \<open>None\<close>, and \<open>equilibrium_point\<close> at Python's \<open>None\<close>.
\<close>

definition equilibrium_step ::
    "rat option \<times> 'a load_sample_scheme option \<Rightarrow> 'a load_sample_scheme
       \<Rightarrow> rat option \<times> 'a load_sample_scheme option" where
  "equilibrium_step st r =
     (let diff = \<bar>front_total r - rear_total r\<bar>
      in if (case fst st of None \<Rightarrow> True | Some min_diff \<Rightarrow> diff < min_diff)
         then (Some diff, Some r) else st)"

definition equilibrium_loop :: "'a load_sample_scheme list \<Rightarrow> 'a load_sample_scheme option" where
  "equilibrium_loop results = snd (foldl equilibrium_step (None, None) results)"

text \<open>Python's \<open>max(results, key=...)\<close>: the first item with the largest key; empty input raises.\<close>

fun max_by :: "('a \<Rightarrow> rat) \<Rightarrow> 'a list \<Rightarrow> error + 'a" where
  "max_by key [] = Inl ValueError"
| "max_by key (x # xs) = Inr (foldl (\<lambda>best r. if key r > key best then r else best) x xs)"

text \<open>
  The function prints the three points it finds and returns nothing; the record holds
  the points printed.
\<close>

record 'r special_points =
  equilibrium_point :: "'r option"
  max_front :: 'r
  max_rear :: 'r

definition find_special_points ::
    "'a load_sample_scheme list \<Rightarrow> error + 'a load_sample_scheme special_points" where
  "find_special_points results =
     (let eq_pt = equilibrium_loop results
      in case max_by front_total results of
           Inl e \<Rightarrow> Inl e
         | Inr mf \<Rightarrow>
             (case max_by rear_total results of
                Inl e \<Rightarrow> Inl e
              | Inr mr \<Rightarrow> Inr \<lparr> equilibrium_point = eq_pt, max_front = mf, max_rear = mr \<rparr>))"

section \<open>dynamic\_simulation.py: class VehiclePerformanceAnalysis\<close>

text \<open>
  This class is modelled in exact arithmetic over \<open>real\<close>.
\<close>

text \<open>
  The attributes of the instance.  The one-letter attributes \<open>m\<close>, \<open>g\<close>, \<open>rho\<close>,
  \<open>Cd\<close>, \<open>A\<close>, \<open>f\<close>, \<open>eta_T\<close> and \<open>r\<close> are written with the prefix \<open>self_\<close>.
  The keys of \<open>gear_ratios\<close> are the gear labels; the label of gear \<open>n\<close> is written as
  the number \<open>n\<close>, and the dict is an association list in insertion order.
\<close>

record vehicle =
  self_m :: real
  self_g :: real
  self_rho :: real
  self_Cd :: real
  self_A :: real
  self_f :: real
  self_eta_T :: real
  self_r :: real
  gear_ratios :: "(nat \<times> real) list"
  final_drive_ratio :: real
  engine_speed :: "real list"
  engine_torque :: "real list"

definition VehiclePerformanceAnalysis :: vehicle where
  "VehiclePerformanceAnalysis =
     \<lparr> self_m = 24700, self_g = 9.81, self_rho = 1.204, self_Cd = 0.6, self_A = 10.1,
       self_f = 0.05, self_eta_T = 0.9, self_r = 0.8235,
       gear_ratios = [(1, 13.8), (2, 11.54), (3, 9.49), (4, 7.93), (5, 6.53), (6, 5.46),
                      (7, 4.57), (8, 3.82), (9, 3.02), (10, 2.53), (11, 2.08), (12, 1.74),
                      (13, 1.43), (14, 1.2), (15, 1.0), (16, 0.84)],
       final_drive_ratio = 6.727,
       engine_speed = [800, 1000, 1200, 1400, 1600, 1800, 1900, 2000, 2100, 2200],
       engine_torque = [2000, 2300, 2300, 2300, 2086, 1885, 1789, 1684, 1580, 1475] \<rparr>"

text \<open>
  numpy divides by zero without raising (the result is an infinity or NaN, and the module
  silences the warning).  Those values are not real numbers; the properties below are
  stated for instances whose divisors are not zero.
\<close>

definition divisors_nonzero :: "vehicle \<Rightarrow> bool" where
  "divisors_nonzero self \<longleftrightarrow>
     self_r self \<noteq> 0 \<and> self_m self * self_g self \<noteq> 0 \<and> final_drive_ratio self \<noteq> 0 \<and>
     (\<forall>ig \<in> snd ` set (gear_ratios self). ig \<noteq> 0)"

subsection \<open>calculate\_tractive\_force\<close>

definition calculate_tractive_force :: "vehicle \<Rightarrow> nat \<Rightarrow> error + (real list \<times> real list)" where
  "calculate_tractive_force self gear_name =
     (case map_of (gear_ratios self) gear_name of
        None \<Rightarrow> Inl KeyError
      | Some ig \<Rightarrow>
          let i0 = final_drive_ratio self;
              vehicle_speed = map (\<lambda>n. 0.377 * n * self_r self / (ig * i0)) (engine_speed self);
              tractive_force =
                map (\<lambda>T. T * ig * i0 * self_eta_T self / self_r self) (engine_torque self)
          in Inr (vehicle_speed, tractive_force))"

subsection \<open>calculate\_resistance\_force\<close>

record resistances =
  total :: "real list"
  rolling :: "real list"
  air :: "real list"
  grade :: "real list"

text \<open>Elementwise addition of two arrays of the same shape.\<close>

definition add_arrays :: "real list \<Rightarrow> real list \<Rightarrow> real list" where
  "add_arrays xs ys = map (\<lambda>(x, y). x + y) (zip xs ys)"

text \<open>
  The argument is an array of speeds; a scalar argument is the array with one element.
  The function contains no check and no \<open>raise\<close>: every call returns.
\<close>

definition calculate_resistance_force :: "vehicle \<Rightarrow> real list \<Rightarrow> error + resistances" where
  "calculate_resistance_force self vehicle_speed_kmh =
     (let vehicle_speed_ms = map (\<lambda>v. v / 3.6) vehicle_speed_kmh;
          rolling_resistance =
            map (\<lambda>v. self_m self * self_g self * self_f self * 1) vehicle_speed_kmh;
          air_resistance =
            map (\<lambda>v. 0.5 * self_Cd self * self_A self * self_rho self * v ^ 2) vehicle_speed_ms;
          grade_resistance = map (\<lambda>v. 0) vehicle_speed_kmh;
          total_resistance =
            add_arrays (add_arrays rolling_resistance air_resistance) grade_resistance
      in Inr \<lparr> total = total_resistance, rolling = rolling_resistance,
                air = air_resistance, grade = grade_resistance \<rparr>)"

subsection \<open>numpy functions used by calculate\_performance\_indicators\<close>

text \<open>\<open>numpy.linspace(start, stop, num)\<close>: \<open>num\<close> evenly spaced values, both ends included.\<close>

definition linspace :: "real \<Rightarrow> real \<Rightarrow> nat \<Rightarrow> real list" where
  "linspace start stop num =
     (if num = 1 then [start]
      else map (\<lambda>i. start + of_nat i * ((stop - start) / of_nat (num - 1))) [0..<num])"

text \<open>
  \<open>numpy.interp(x, xp, fp)\<close> for increasing \<open>xp\<close> (numpy does not check this and its
  result is unspecified otherwise): \<open>fp[0]\<close> left of the samples, \<open>fp[-1]\<close> at and right
  of the last sample, the sampled value at a sample, linear interpolation in between.
  An empty \<open>xp\<close> and arrays of different lengths raise.
\<close>

fun interp_sorted :: "real \<Rightarrow> (real \<times> real) list \<Rightarrow> real" where
  "interp_sorted x [] = 0"
| "interp_sorted x [(x0, y0)] = y0"
| "interp_sorted x ((x0, y0) # (x1, y1) # rest) =
     (if x < x1 then (if x = x0 then y0 else (y1 - y0) / (x1 - x0) * (x - x0) + y0)
      else interp_sorted x ((x1, y1) # rest))"

definition interp_point :: "real \<Rightarrow> real list \<Rightarrow> real list \<Rightarrow> real" where
  "interp_point x xp fp = (if x < hd xp then hd fp else interp_sorted x (zip xp fp))"

definition interp :: "real list \<Rightarrow> real list \<Rightarrow> real list \<Rightarrow> error + real list" where
  "interp xs xp fp =
     (if xp = [] \<or> length fp \<noteq> length xp then Inl ValueError
      else Inr (map (\<lambda>x. interp_point x xp fp) xs))"

text \<open>\<open>numpy.where(a >= b)[0]\<close>: the indices at which the comparison holds, increasing.\<close>

definition where_ge :: "real list \<Rightarrow> real list \<Rightarrow> nat list" where
  "where_ge a b = filter (\<lambda>i. a ! i \<ge> b ! i) [0..<min (length a) (length b)]"

text \<open>\<open>numpy.argmin\<close>: the index of the first occurrence of the least element; empty input raises.\<close>

definition argmin :: "real list \<Rightarrow> error + nat" where
  "argmin xs =
     (if xs = [] then Inl ValueError
      else Inr (length (takeWhile (\<lambda>x. x \<noteq> Min (set xs)) xs)))"

text \<open>
  \<open>round(x, 1)\<close> in exact arithmetic: the nearest multiple of one tenth, a tie going to
  the even multiple.
\<close>

definition round1 :: "real \<Rightarrow> real" where
  "round1 x =
     (let s = x * 10; fl = \<lfloor>s\<rfloor>; frac = s - of_int fl
      in (if frac < 1 / 2 then of_int fl
          else if frac > 1 / 2 then of_int (fl + 1)
          else if even fl then of_int fl else of_int (fl + 1)) / 10)"

subsection \<open>calculate\_performance\_indicators\<close>

text \<open>The grid of speeds, \<open>np.linspace(0, 220, 500)\<close>.\<close>

definition speed_range :: "real list" where
  "speed_range = linspace 0 220 500"

text \<open>
  Lines 264 to 270, with the gear label as a parameter: the resistance on the grid, the
  tractive force of the gear interpolated onto the grid, and the grid indices at which the
  tractive force is at least the resistance.  \<open>calculate_performance_indicators\<close> runs
  these lines for the label of gear 5 (its comment names gear 10, its variables gear 15).
\<close>

definition intersection_idx :: "vehicle \<Rightarrow> nat \<Rightarrow> error + nat list" where
  "intersection_idx self gear_name =
     (case calculate_resistance_force self speed_range of
        Inl e \<Rightarrow> Inl e
      | Inr resistances \<Rightarrow>
          (case calculate_tractive_force self gear_name of
             Inl e \<Rightarrow> Inl e
           | Inr (v_15th, ft_15th) \<Rightarrow>
               (case interp speed_range v_15th ft_15th of
                  Inl e \<Rightarrow> Inl e
                | Inr ft_15th_interp \<Rightarrow> Inr (where_ge ft_15th_interp (total resistances)))))"

text \<open>
  Lines 272 to 275.  The two branches give values of different Python types: an element of
  the grid is a numpy float, the literal \<open>0\<close> of the other branch is an int.
\<close>

datatype scalar = IntValue int | FloatValue real

definition max_speed :: "vehicle \<Rightarrow> nat \<Rightarrow> error + scalar" where
  "max_speed self gear_name =
     (case intersection_idx self gear_name of
        Inl e \<Rightarrow> Inl e
      | Inr idx \<Rightarrow>
          Inr (if length idx > 0 then FloatValue (speed_range ! (last idx)) else IntValue 0))"

text \<open>
  Lines 278 to 288: the tractive force of gear 1 at the sample nearest to 10 km/h, less the
  resistance at 10 km/h.
\<close>

definition available_force :: "vehicle \<Rightarrow> error + real" where
  "available_force self =
     (case calculate_tractive_force self 1 of
        Inl e \<Rightarrow> Inl e
      | Inr (v_1st, ft_1st) \<Rightarrow>
          (case argmin (map (\<lambda>v. \<bar>v - 10\<bar>) v_1st) of
             Inl e \<Rightarrow> Inl e
           | Inr idx_10kmh \<Rightarrow>
               if idx_10kmh \<ge> length ft_1st then Inl IndexError
               else
                 let max_tractive_force = ft_1st ! idx_10kmh;
                     v_10kmh = 10
                 in (case calculate_resistance_force self [v_10kmh] of
                       Inl e \<Rightarrow> Inl e
                     | Inr resistances_at_10 \<Rightarrow>
                         Inr (max_tractive_force - hd (total resistances_at_10)))))"

text \<open>Lines 289 to 298: the pair \<open>(max_grade, max_grade_percent)\<close>.\<close>

definition max_grade :: "vehicle \<Rightarrow> error + (real \<times> real)" where
  "max_grade self =
     (case available_force self of
        Inl e \<Rightarrow> Inl e
      | Inr avail \<Rightarrow>
          if avail > 0 then
            let sin_theta = avail / (self_m self * self_g self);
                sin_theta = min (max sin_theta 0) 0.5
            in Inr (arcsin sin_theta * 180 / pi, tan (arcsin sin_theta) * 100)
          else Inr (0, 0))"

text \<open>\<open>round(x, 1)\<close> of an int is that int; of a float it is the rounded float.\<close>

fun round_scalar :: "scalar \<Rightarrow> scalar" where
  "round_scalar (IntValue n) = IntValue n"
| "round_scalar (FloatValue x) = FloatValue (round1 x)"

text \<open>
  The returned dict; its four keys are the labels of the report, here \<open>max_speed_kmh\<close>,
  \<open>max_grade_deg\<close>, \<open>max_grade_percent\<close> and \<open>accel_time_0_100\<close>.  It has no other key.
  The two grades and the time are held by their values.
\<close>

record indicators =
  max_speed_kmh :: scalar
  max_grade_deg :: real
  max_grade_percent :: real
  accel_time_0_100 :: real

definition calculate_performance_indicators :: "vehicle \<Rightarrow> error + indicators" where
  "calculate_performance_indicators self =
     (case max_speed self 5 of
        Inl e \<Rightarrow> Inl e
      | Inr max_speed_v \<Rightarrow>
          (case max_grade self of
             Inl e \<Rightarrow> Inl e
           | Inr (max_grade_v, max_grade_percent_v) \<Rightarrow>
               let avg_acceleration = 2.5;
                   accel_time = (100 / 3.6) / avg_acceleration
               in Inr \<lparr> max_speed_kmh = round_scalar max_speed_v,
                         max_grade_deg = round1 max_grade_v,
                         max_grade_percent = round1 max_grade_percent_v,
                         accel_time_0_100 = round1 accel_time \<rparr>))"

text \<open>The total resistance at one speed, as \<open>calculate_resistance_force\<close> computes it.\<close>

definition resistance_total :: "vehicle \<Rightarrow> real \<Rightarrow> real" where
  "resistance_total self v =
     self_m self * self_g self * self_f self
       + 0.5 * self_Cd self * self_A self * self_rho self * (v / 3.6) ^ 2"

text \<open>
  Two instances with an engine that delivers no torque: the configured vehicle with
  \<open>engine_torque\<close> set to zeros, and the same with the rolling resistance coefficient
  \<open>f\<close> set to zero as well.
\<close>

definition no_torque_vehicle :: vehicle where
  "no_torque_vehicle =
     VehiclePerformanceAnalysis \<lparr> engine_torque := [0, 0, 0, 0, 0, 0, 0, 0, 0, 0] \<rparr>"

definition no_torque_frictionless_vehicle :: vehicle where
  "no_torque_frictionless_vehicle = no_torque_vehicle \<lparr> self_f := 0 \<rparr>"

section \<open>Values used to state the properties\<close>

text \<open>The quantity the equilibrium search minimises.\<close>

definition load_diff :: "'a load_sample_scheme \<Rightarrow> rat" where
  "load_diff r = \<bar>front_total r - rear_total r\<bar>"


definition three_samples :: "load_sample list" where
  "three_samples =
     [\<lparr> cg_position = 0, cg_absolute = 1800, axle1_load = 4, axle2_load = 4, axle3_load = 1,
        axle4_load = 1, front_total = 8, rear_total = 2 \<rparr>,
      \<lparr> cg_position = 100, cg_absolute = 1900, axle1_load = 3, axle2_load = 3, axle3_load = 2,
        axle4_load = 2, front_total = 6, rear_total = 4 \<rparr>,
      \<lparr> cg_position = 200, cg_absolute = 2000, axle1_load = 2, axle2_load = 2, axle3_load = 3,
        axle4_load = 3, front_total = 4, rear_total = 6 \<rparr>]"

section \<open>Properties of the number model\<close>

lemma rhe_error: "\<bar>of_int (round_half_even s) - s\<bar> \<le> 1 / 2"
proof -
  define fl where "fl = \<lfloor>s\<rfloor>"
  have b: "of_int fl \<le> s" "s < of_int fl + 1" unfolding fl_def by linarith+
  have r: "round_half_even s =
     (if s - of_int fl < 1 / 2 then fl
         else if s - of_int fl > 1 / 2 then fl + 1
         else if even fl then fl else fl + 1)"
    unfolding round_half_even_def Let_def fl_def by simp
  show ?thesis
    unfolding r using b by (simp add: abs_if)
qed

lemma pow2_less_imp_less:
  assumes "(2::rat) powi a < 2 powi b"
  shows "a < b"
proof (rule ccontr)
  assume "\<not> a < b"
  then have "b \<le> a" by simp
  then have "(2::rat) powi b \<le> 2 powi a" by (rule power_int_increasing) simp
  with assms show False by simp
qed


lemma pow2_bitlen:
  assumes "0 < p"
  shows "(2::rat) powi (bitlen p - 1) \<le> of_int p \<and> (of_int p :: rat) < 2 powi (bitlen p)"
proof -
  from bitlen_bounds[OF assms] have a: "2 ^ nat (bitlen p - 1) \<le> p" and b: "p < 2 ^ nat (bitlen p)"
    by simp_all
  have b1: "1 \<le> bitlen p" using assms by (auto simp: bitlen_alt_def)
  have "(of_int (2 ^ nat (bitlen p - 1)) :: rat) \<le> of_int p" using a by (simp only: of_int_le_iff)
  then have l: "(2::rat) ^ nat (bitlen p - 1) \<le> of_int p" by simp
  have "(of_int p :: rat) < of_int (2 ^ nat (bitlen p))" using b by (simp only: of_int_less_iff)
  then have u: "(of_int p :: rat) < 2 ^ nat (bitlen p)" by simp
  from l u b1 show ?thesis by (simp add: power_int_nonneg_exp)
qed

lemma float_exponent_bounds:
  assumes "x \<noteq> 0"
  shows "2 powi (float_exponent x) \<le> \<bar>x\<bar> \<and> \<bar>x\<bar> < 2 powi (float_exponent x + 1)"
proof -
  obtain p q where pq: "quotient_of \<bar>x\<bar> = (p, q)" by (cases "quotient_of \<bar>x\<bar>")
  then have q: "0 < q" by (rule quotient_of_denom_pos)
  from pq have x: "\<bar>x\<bar> = of_int p / of_int q" by (rule quotient_of_div)
  have "0 < \<bar>x\<bar>" using assms by simp
  then have p: "0 < p" unfolding x using q by (simp add: zero_less_divide_iff)
  define e where "e = bitlen p - bitlen q"
  from pow2_bitlen[OF p] have pl: "(2::rat) powi (bitlen p - 1) \<le> of_int p"
    and pu: "(of_int p :: rat) < 2 powi (bitlen p)" by simp_all
  from pow2_bitlen[OF q] have ql: "(2::rat) powi (bitlen q - 1) \<le> of_int q"
    and qu: "(of_int q :: rat) < 2 powi (bitlen q)" by simp_all
  have qpos: "(0::rat) < of_int q" using q by simp
  have up: "\<bar>x\<bar> < 2 powi (e + 1)"
  proof -
    have "of_int p < (2::rat) powi (bitlen p)" by (rule pu)
    also have "\<dots> = 2 powi (e + 1) * 2 powi (bitlen q - 1)"
      unfolding e_def by (simp add: power_int_add[symmetric])
    also have "\<dots> \<le> 2 powi (e + 1) * of_int q"
      using ql by (intro mult_left_mono) simp_all
    finally show ?thesis unfolding x using qpos by (simp add: pos_divide_less_eq)
  qed
  have lo: "2 powi (e - 1) < \<bar>x\<bar>"
  proof -
    have "2 powi (e - 1) * of_int q < (2::rat) powi (e - 1) * 2 powi (bitlen q)"
      using qu by (intro mult_strict_left_mono) simp_all
    also have "\<dots> = 2 powi (bitlen p - 1)"
      unfolding e_def by (simp add: power_int_add[symmetric])
    also have "\<dots> \<le> of_int p" by (rule pl)
    finally show ?thesis unfolding x using qpos by (simp add: pos_less_divide_eq)
  qed
  have fe: "float_exponent x = (if 2 powi e \<le> \<bar>x\<bar> then e else e - 1)"
    unfolding float_exponent_def pq e_def by (simp add: Let_def)
  show ?thesis
  proof (cases "2 powi e \<le> \<bar>x\<bar>")
    case True
    with fe up show ?thesis by simp
  next
    case False
    with fe lo show ?thesis by simp
  qed
qed

lemma float_exponent_unique:
  assumes "2 powi e \<le> \<bar>x\<bar>" and "\<bar>x\<bar> < 2 powi (e + 1)"
  shows "float_exponent x = e"
proof -
  have "0 < (2::rat) powi e" by simp
  then have "0 < \<bar>x\<bar>" using assms(1) by (rule less_le_trans)
  then have nz: "x \<noteq> 0" by simp
  from float_exponent_bounds[OF nz]
  have b: "2 powi (float_exponent x) \<le> \<bar>x\<bar>" "\<bar>x\<bar> < 2 powi (float_exponent x + 1)" by simp_all
  have "(2::rat) powi e < 2 powi (float_exponent x + 1)" using assms(1) b(2) by simp
  then have 1: "e < float_exponent x + 1" by (rule pow2_less_imp_less)
  have "(2::rat) powi (float_exponent x) < 2 powi (e + 1)" using assms(2) b(1) by simp
  then have 2: "float_exponent x < e + 1" by (rule pow2_less_imp_less)
  from 1 2 show ?thesis by simp
qed

lemma round_double_eval:
  assumes "2 powi e \<le> \<bar>x\<bar>" and "\<bar>x\<bar> < 2 powi (e + 1)"
  shows "round_double x = of_int (round_half_even (x / 2 powi (e - 52))) * 2 powi (e - 52)"
proof -
  have "0 < (2::rat) powi e" by simp
  then have "0 < \<bar>x\<bar>" using assms(1) by (rule less_le_trans)
  then have nz: "x \<noteq> 0" by simp
  show ?thesis
    unfolding round_double_def float_exponent_unique[OF assms] using nz by (simp add: Let_def)
qed

lemma round_double_zero: "round_double 0 = 0"
  by (simp add: round_double_def)

lemma round_double_error: "\<bar>round_double x - x\<bar> \<le> \<bar>x\<bar> / 2 ^ 53"
proof (cases "x = 0")
  case True
  then show ?thesis by (simp add: round_double_def)
next
  case False
  define e where "e = float_exponent x"
  define u :: rat where "u = 2 powi (e - 52)"
  have u: "0 < u" unfolding u_def by simp
  from float_exponent_bounds[OF False] have lo: "2 powi e \<le> \<bar>x\<bar>" unfolding e_def by simp
  have r: "round_double x = of_int (round_half_even (x / u)) * u"
    unfolding round_double_def u_def e_def using False by (simp add: Let_def)
  have "round_double x - x = (of_int (round_half_even (x / u)) - x / u) * u"
    unfolding r using u by (simp add: algebra_simps)
  then have "\<bar>round_double x - x\<bar> = \<bar>of_int (round_half_even (x / u)) - x / u\<bar> * u"
    using u by (simp add: abs_mult)
  also have "\<dots> \<le> 1 / 2 * u"
    using rhe_error[of "x / u"] u by (intro mult_right_mono) simp_all
  also have "\<dots> = 2 powi e / 2 ^ 53"
    unfolding u_def by (simp add: power_int_diff)
  also have "\<dots> \<le> \<bar>x\<bar> / 2 ^ 53"
    using lo by (intro divide_right_mono) simp_all
  finally show ?thesis .
qed



lemma wrap64_word: "wrap64 n = sint (word_of_int n :: 64 word)"
  by (simp add: wrap64_def sint_sbintrunc' signed_take_bit_eq_take_bit_shift take_bit_eq_mod)

lemma word_of_int_wrap64: "(word_of_int (wrap64 n) :: 64 word) = word_of_int n"
  by (simp add: wrap64_word)

lemma wrap64_eqI: "(word_of_int a :: 64 word) = word_of_int b \<Longrightarrow> wrap64 a = wrap64 b"
  by (simp add: wrap64_word)

lemma wrap64_add_left: "wrap64 (wrap64 a + b) = wrap64 (a + b)"
  by (rule wrap64_eqI) (simp add: word_of_int_wrap64 wi_hom_syms)

lemma wrap64_add_right: "wrap64 (a + wrap64 b) = wrap64 (a + b)"
  by (rule wrap64_eqI) (simp add: word_of_int_wrap64 wi_hom_syms)

lemma wrap64_diff_left: "wrap64 (wrap64 a - b) = wrap64 (a - b)"
  by (rule wrap64_eqI) (simp add: word_of_int_wrap64 wi_hom_syms)

lemma wrap64_diff_right: "wrap64 (a - wrap64 b) = wrap64 (a - b)"
  by (rule wrap64_eqI) (simp add: word_of_int_wrap64 wi_hom_syms)

lemma wrap64_mult_left: "wrap64 (wrap64 a * b) = wrap64 (a * b)"
  by (rule wrap64_eqI) (simp add: word_of_int_wrap64 wi_hom_syms)

lemma wrap64_mult_right: "wrap64 (a * wrap64 b) = wrap64 (a * b)"
  by (rule wrap64_eqI) (simp add: word_of_int_wrap64 wi_hom_syms)

lemma wrap64_minus: "wrap64 (- wrap64 a) = wrap64 (- a)"
  by (rule wrap64_eqI) (simp add: word_of_int_wrap64 wi_hom_syms)

lemmas wrap64_simps = wrap64_add_left wrap64_add_right wrap64_diff_left wrap64_diff_right
  wrap64_mult_left wrap64_mult_right wrap64_minus



lemma threshold_bounds: "0 < round_double (1 / 10 ^ 10) \<and> round_double (1 / 10 ^ 10) < 1"
proof -
  define c :: rat where "c = 1 / 10 ^ 10"
  have c: "0 < c" "c < 1 / 2" unfolding c_def by simp_all
  have "\<bar>round_double c - c\<bar> \<le> \<bar>c\<bar> / 2 ^ 53" by (rule round_double_error)
  moreover have "\<bar>c\<bar> / 2 ^ 53 \<le> c / 2" using c by (simp add: field_simps)
  ultimately have "\<bar>round_double c - c\<bar> \<le> c / 2" by simp
  then have "c / 2 \<le> round_double c" "round_double c \<le> 3 * c / 2" by linarith+
  with c have "0 < round_double c \<and> round_double c < 1" by linarith
  then show ?thesis unfolding c_def .
qed

section \<open>Properties of the axle-load calculators\<close>

subsection \<open>Auxiliary facts\<close>

lemma attr_of_int: "attr (of_int n) = PyInt n"
  by (simp add: attr_def)

lemma attr_numeral: "attr (numeral k) = PyInt (numeral k)"
  using attr_of_int[of "numeral k"] by simp

lemma attr_zero: "attr 0 = PyInt 0"
  using attr_of_int[of 0] by simp

lemma d_list_configured:
  "d_list VehicleAxleLoadCalculator d =
     [num_sub (PyInt 0) (num_add (PyInt 1800) d), num_sub (PyInt 1800) (num_add (PyInt 1800) d),
      num_sub (PyInt 6600) (num_add (PyInt 1800) d), num_sub (PyInt 8000) (num_add (PyInt 1800) d)]"
  by (simp add: d_list_def VehicleAxleLoadCalculator_def Let_def attr_numeral attr_zero)

lemma S1_PyInt: "S1 VehicleAxleLoadCalculator (PyInt n) = PyInt (9200 - 4 * n)"
  by (simp add: S1_def d_list_configured py_sum_def num_add_def num_sub_def)

lemma S2_PyInt:
  "S2 VehicleAxleLoadCalculator (PyInt n) = PyInt (4 * (n * n) - 18400 * n + 64720000)"
proof -
  have "(- 1800 - n) * (- 1800 - n) + n * n + (4800 - n) * (4800 - n) + (6200 - n) * (6200 - n)
          = 4 * (n * n) - 18400 * n + 64720000"
    by (simp add: algebra_simps)
  then show ?thesis
    by (simp add: S2_def d_list_configured py_sum_def num_add_def num_sub_def)
qed

lemma denominator_new_PyInt:
  "denominator_new VehicleAxleLoadCalculator (PyInt n) = PyInt 174240000"
proof -
  have "4 * (4 * (n * n) - 18400 * n + 64720000) - (9200 - 4 * n) * (9200 - 4 * n) = 174240000"
    by (simp add: algebra_simps)
  then show ?thesis
    by (simp add: denominator_new_def S1_PyInt S2_PyInt num_sub_def num_mul_def)
qed

lemma S1_NpInt64: "S1 VehicleAxleLoadCalculator (NpInt64 n) = NpInt64 (wrap64 (9200 - 4 * n))"
  by (simp add: S1_def d_list_configured py_sum_def num_add_def num_sub_def wrap64_simps)

lemma S2_NpInt64:
  "S2 VehicleAxleLoadCalculator (NpInt64 n) = NpInt64 (wrap64 (4 * (n * n) - 18400 * n + 64720000))"
  apply (simp add: S2_def d_list_configured py_sum_def num_add_def num_sub_def)
  apply (rule wrap64_eqI)
  apply (simp add: word_of_int_wrap64 wi_hom_syms algebra_simps)
  done

lemma denominator_new_NpInt64:
  "denominator_new VehicleAxleLoadCalculator (NpInt64 n) = NpInt64 174240000"
proof -
  have "denominator_new VehicleAxleLoadCalculator (NpInt64 n) = NpInt64 (wrap64 174240000)"
    apply (simp add: denominator_new_def S1_NpInt64 S2_NpInt64 num_sub_def num_mul_def)
    apply (rule wrap64_eqI)
    apply (simp add: word_of_int_wrap64 wi_hom_syms algebra_simps)
    done
  moreover have "wrap64 174240000 = 174240000" by (simp add: wrap64_def)
  ultimately show ?thesis by simp
qed

lemma denominator_equal_pair:
  "num_mul (PyInt 2) (num_add (num_add (PyInt 1800) (num_mul (PyInt 2) (PyInt 4800))) (PyInt 1400))
     = PyInt 25600"
  by (simp add: num_mul_def num_add_def)















lemma configured_attributes:
  "attr (total_weight VehicleAxleLoadCalculator) = PyInt 24700"
  "attr (L1 VehicleAxleLoadCalculator) = PyInt 1800"
  "attr (L2 VehicleAxleLoadCalculator) = PyInt 4800"
  "attr (L3 VehicleAxleLoadCalculator) = PyInt 1400"
  "attr (axle1 (axle_positions VehicleAxleLoadCalculator)) = PyInt 0"
  "attr (axle2 (axle_positions VehicleAxleLoadCalculator)) = PyInt 1800"
  "attr (axle3 (axle_positions VehicleAxleLoadCalculator)) = PyInt 6600"
  "attr (axle4 (axle_positions VehicleAxleLoadCalculator)) = PyInt 8000"
  by (simp_all add: VehicleAxleLoadCalculator_def attr_numeral attr_zero)




lemma equal_pair_divisions:
  "\<exists>y. num_truediv (num_mul (PyInt 24700) (num_add (PyInt 1800) (num_mul (PyInt 2) d)))
           (PyInt 25600) = Inr (Float y) \<and>
        (\<exists>x. num_truediv (num_sub (PyInt 24700) (num_mul (PyInt 2) (Float y))) (PyInt 2)
               = Inr (Float x))"
  by (simp add: num_truediv_def)

lemma calculate_axle_loads_num_returns:
  "\<exists>out s. calculate_axle_loads_num VehicleAxleLoadCalculator d = (out, Inr s) \<and>
      cg_position s = val d"
proof -
  from equal_pair_divisions[of d] obtain y x
    where y: "num_truediv (num_mul (PyInt 24700) (num_add (PyInt 1800) (num_mul (PyInt 2) d)))
           (PyInt 25600) = Inr (Float y)"
      and x: "num_truediv (num_sub (PyInt 24700) (num_mul (PyInt 2) (Float y))) (PyInt 2)
               = Inr (Float x)"
    by blast
  show ?thesis
    unfolding calculate_axle_loads_num_def Let_def configured_attributes denominator_equal_pair
    by (simp add: y x)
qed

lemma calculate_axle_loads_old_num_returns:
  "\<exists>s. calculate_axle_loads_old_num VehicleAxleLoadCalculator d = ([], Inr s) \<and>
      cg_position s = val d"
proof -
  from equal_pair_divisions[of d] obtain y x
    where y: "num_truediv (num_mul (PyInt 24700) (num_add (PyInt 1800) (num_mul (PyInt 2) d)))
           (PyInt 25600) = Inr (Float y)"
      and x: "num_truediv (num_sub (PyInt 24700) (num_mul (PyInt 2) (Float y))) (PyInt 2)
               = Inr (Float x)"
    by blast
  show ?thesis
    unfolding calculate_axle_loads_old_num_def Let_def configured_attributes denominator_equal_pair
    by (simp add: y x)
qed

lemma new_model_returns:
  "\<exists>out s. calculate_axle_loads_new_model VehicleAxleLoadCalculator d = (out, Inr s) \<and>
      cg_position s = val d"
proof (cases "\<bar>val (denominator_new VehicleAxleLoadCalculator d)\<bar> < round_double (1 / 10 ^ 10)")
  case True
  from calculate_axle_loads_old_num_returns[of d] obtain s
    where "calculate_axle_loads_old_num VehicleAxleLoadCalculator d = ([], Inr s)"
      "cg_position s = val d" by blast
  with True show ?thesis
    by (simp add: calculate_axle_loads_new_model_def Let_def)
next
  case False
  with threshold_bounds have nz: "val (denominator_new VehicleAxleLoadCalculator d) \<noteq> 0"
    by auto
  have f: "axle_force W a b c (denominator_new VehicleAxleLoadCalculator d)
             = Inr (Float (quotient (num_mul W (num_sub b (num_mul a c)))
                      (denominator_new VehicleAxleLoadCalculator d)))"
    for W a b c
    using nz by (simp add: axle_force_def num_truediv_def)
  have h: "num_truediv a (PyInt 2) = Inr (Float (quotient a (PyInt 2)))" for a
    by (simp add: num_truediv_def)
  show ?thesis
    unfolding calculate_axle_loads_new_model_def Let_def f h
    using False by simp
qed









text \<open>
  The rigid-frame denominator at the float offsets \<open>4e11\<close> and \<open>2\<^sup>8\<^sup>0\<close>.  At \<open>2\<^sup>8\<^sup>0\<close> the four
  distances are rounded to \<open>-2\<^sup>8\<^sup>0\<close> and every square, sum and product after that is exact.
\<close>

lemma denominator_at_float_4e11:
  "denominator_new VehicleAxleLoadCalculator (Float (4 * 10 ^ 11)) = Float 0"
  by code_simp

lemma denominator_at_float_2p80:
  "denominator_new VehicleAxleLoadCalculator (Float (2 ^ 80)) = Float 0"
  by code_simp

lemma fallback_general:
  assumes "\<bar>val (denominator_new VehicleAxleLoadCalculator d)\<bar> < round_double (1 / 10 ^ 10)"
  shows "\<exists>s. calculate_axle_loads_old_num VehicleAxleLoadCalculator d = ([], Inr s) \<and>
             calculate_axle_loads_new_model VehicleAxleLoadCalculator d
               = ([NearZeroDenominatorWarning (val d)], Inr s)"
proof -
  from calculate_axle_loads_old_num_returns[of d] obtain s
    where s: "calculate_axle_loads_old_num VehicleAxleLoadCalculator d = ([], Inr s)" by blast
  with assms have "calculate_axle_loads_new_model VehicleAxleLoadCalculator d
               = ([NearZeroDenominatorWarning (val d)], Inr s)"
    by (simp add: calculate_axle_loads_new_model_def Let_def)
  with s show ?thesis by blast
qed

lemma no_warning_general:
  assumes "\<not> \<bar>val (denominator_new VehicleAxleLoadCalculator d)\<bar> < round_double (1 / 10 ^ 10)"
  shows "fst (calculate_axle_loads_new_model VehicleAxleLoadCalculator d) = []"
  using assms
  by (simp add: calculate_axle_loads_new_model_def Let_def split: sum.splits prod.splits)

lemma sweep_loop_total:
  assumes "\<And>p. p \<in> set ps \<Longrightarrow> \<exists>out s. compute p = (out, Inr s) \<and> cg_position s = val p"
  shows "\<exists>out rs. sweep_loop compute ps = (out, Inr rs) \<and> map cg_position rs = map val ps"
  using assms
proof (induction ps)
  case Nil
  then show ?case by simp
next
  case (Cons p ps)
  from Cons.prems[of p] obtain out s where s: "compute p = (out, Inr s)" "cg_position s = val p"
    by auto
  from Cons.IH Cons.prems obtain out' rs
    where rs: "sweep_loop compute ps = (out', Inr rs)" "map cg_position rs = map val ps"
    by auto
  show ?case using s rs by (simp add: Let_def)
qed

lemma analyze_positions:
  "map_sum id (map cg_position)
      (snd (analyze_load_distribution VehicleAxleLoadCalculator (a, b) step)) =
     (if step = 0 then Inl ZeroDivisionError
      else Inr (map (\<lambda>i. of_int (a + int i * step))
                  [0..<nat \<lceil>(of_int (b + step - a) :: rat) / of_int step\<rceil>]))"
proof (cases "step = 0")
  case True
  then show ?thesis by (simp add: analyze_load_distribution_def arange_def)
next
  case False
  define ps where "ps = map (\<lambda>i. NpInt64 (a + int i * step))
                  [0..<nat \<lceil>(of_int (b + step - a) :: rat) / of_int step\<rceil>]"
  obtain out rs
    where "sweep_loop (calculate_axle_loads_num VehicleAxleLoadCalculator) ps = (out, Inr rs)"
      "map cg_position rs = map val ps"
    using sweep_loop_total[of ps "calculate_axle_loads_num VehicleAxleLoadCalculator"]
      calculate_axle_loads_num_returns by blast
  then show ?thesis using False
    by (simp add: analyze_load_distribution_def arange_def ps_def o_def)
qed

lemma analyze_new_positions:
  "map_sum id (map cg_position)
      (snd (analyze_load_distribution_new VehicleAxleLoadCalculator (a, b) step)) =
     (if step = 0 then Inl ZeroDivisionError
      else Inr (map (\<lambda>i. of_int (a + int i * step))
                  [0..<nat \<lceil>(of_int (b + step - a) :: rat) / of_int step\<rceil>]))"
proof (cases "step = 0")
  case True
  then show ?thesis by (simp add: analyze_load_distribution_new_def arange_def)
next
  case False
  define ps where "ps = map (\<lambda>i. NpInt64 (a + int i * step))
                  [0..<nat \<lceil>(of_int (b + step - a) :: rat) / of_int step\<rceil>]"
  obtain out rs
    where "sweep_loop (calculate_axle_loads_new_model VehicleAxleLoadCalculator) ps = (out, Inr rs)"
      "map cg_position rs = map val ps"
    using sweep_loop_total[of ps "calculate_axle_loads_new_model VehicleAxleLoadCalculator"]
      new_model_returns by blast
  then show ?thesis using False
    by (simp add: analyze_load_distribution_new_def arange_def ps_def o_def)
qed



lemma ceiling_three_halves: "\<lceil>3 / 2 :: rat\<rceil> = 2"
  by (rule ceiling_unique) simp_all

lemma ceiling_count:
  fixes step :: int
  assumes "0 < step" "b = a + int k * step"
  shows "nat \<lceil>(of_int (b + step - a) :: rat) / of_int step\<rceil> = Suc k"
proof -
  have "(of_int (b + step - a) :: rat) / of_int step = of_nat (Suc k)"
    using assms by (simp add: field_simps)
  then show ?thesis by (simp only: ceiling_of_nat nat_int)
qed

lemma equilibrium_fold_invariant:
  "results \<noteq> [] \<Longrightarrow>
     \<exists>i<length results.
        foldl equilibrium_step (None, None) results
          = (Some (load_diff (results ! i)), Some (results ! i)) \<and>
        (\<forall>j<length results. load_diff (results ! i) \<le> load_diff (results ! j)) \<and>
        (\<forall>j<i. load_diff (results ! i) < load_diff (results ! j))"
proof (induction results rule: rev_induct)
  case Nil
  then show ?case by simp
next
  case (snoc x xs)
  show ?case
  proof (cases "xs = []")
    case True
    then show ?thesis by (simp add: equilibrium_step_def load_diff_def Let_def)
  next
    case False
    with snoc.IH obtain i where i: "i < length xs"
        "foldl equilibrium_step (None, None) xs = (Some (load_diff (xs ! i)), Some (xs ! i))"
        "\<forall>j<length xs. load_diff (xs ! i) \<le> load_diff (xs ! j)"
        "\<forall>j<i. load_diff (xs ! i) < load_diff (xs ! j)"
      by blast
    show ?thesis
    proof (cases "load_diff x < load_diff (xs ! i)")
      case True
      have fold: "foldl equilibrium_step (None, None) (xs @ [x]) = (Some (load_diff x), Some x)"
        using True i(2) by (simp add: equilibrium_step_def load_diff_def Let_def)
      have all: "\<forall>j<length (xs @ [x]). load_diff x \<le> load_diff ((xs @ [x]) ! j)"
      proof (intro allI impI)
        fix j assume "j < length (xs @ [x])"
        then consider "j < length xs" | "j = length xs" by fastforce
        then show "load_diff x \<le> load_diff ((xs @ [x]) ! j)"
        proof cases
          case 1
          with i(3) True show ?thesis
            by (simp add: nth_append) (meson less_le_trans less_imp_le)
        next
          case 2
          then show ?thesis by simp
        qed
      qed
      have before: "\<forall>j<length xs. load_diff x < load_diff ((xs @ [x]) ! j)"
        using i(3) True by (simp add: nth_append) (meson less_le_trans)
      show ?thesis
        by (rule exI[of _ "length xs"]) (use fold all before in simp)
    next
      case False
      have fold: "foldl equilibrium_step (None, None) (xs @ [x])
                    = (Some (load_diff (xs ! i)), Some (xs ! i))"
        using False i(2) by (simp add: equilibrium_step_def load_diff_def Let_def)
      have all: "\<forall>j<length (xs @ [x]). load_diff (xs ! i) \<le> load_diff ((xs @ [x]) ! j)"
      proof (intro allI impI)
        fix j assume "j < length (xs @ [x])"
        then consider "j < length xs" | "j = length xs" by fastforce
        then show "load_diff (xs ! i) \<le> load_diff ((xs @ [x]) ! j)"
        proof cases
          case 1
          with i(3) show ?thesis by (simp add: nth_append)
        next
          case 2
          with False show ?thesis by simp
        qed
      qed
      have before: "\<forall>j<i. load_diff (xs ! i) < load_diff ((xs @ [x]) ! j)"
        using i(1,4) by (simp add: nth_append)
      show ?thesis
        by (rule exI[of _ i]) (use fold all before i(1) in \<open>simp add: nth_append\<close>)
    qed
  qed
qed

lemma max_by_nonempty: "results \<noteq> [] \<Longrightarrow> \<exists>m. max_by key results = Inr m"
  by (cases results) simp_all

subsection \<open>Load balance\<close>




subsection \<open>The equal-pair formula\<close>


subsection \<open>The rigid-frame denominator\<close>

text \<open>
  Claim C10 as stated fails for float offsets: the denominator is computed in doubles,
  and the squares of the distances, of the order of the square of the offset, are rounded.
  For the float offsets \<open>4e11\<close> and \<open>2\<^sup>8\<^sup>0\<close> the computed denominator is 0.0, the test
  \<open>\<bar>denominator\<bar> < 1e-10\<close> succeeds and the fallback branch runs, printing its warning.
\<close>

theorem rigid_frame_denominator_float_counterexample:
  "denominator_new VehicleAxleLoadCalculator (Float (4 * 10 ^ 11)) = Float 0 \<and>
   fst (calculate_axle_loads_new_model VehicleAxleLoadCalculator (Float (4 * 10 ^ 11)))
     = [NearZeroDenominatorWarning (4 * 10 ^ 11)] \<and>
   denominator_new VehicleAxleLoadCalculator (Float (2 ^ 80)) = Float 0 \<and>
   fst (calculate_axle_loads_new_model VehicleAxleLoadCalculator (Float (2 ^ 80)))
     = [NearZeroDenominatorWarning (2 ^ 80)]"
proof -
  have t: "\<bar>val (Float 0)\<bar> < round_double (1 / 10 ^ 10)"
    using threshold_bounds by simp
  from fallback_general[of "Float (4 * 10 ^ 11)"] t
  have a: "fst (calculate_axle_loads_new_model VehicleAxleLoadCalculator (Float (4 * 10 ^ 11)))
     = [NearZeroDenominatorWarning (4 * 10 ^ 11)]"
    unfolding denominator_at_float_4e11 by auto
  from fallback_general[of "Float (2 ^ 80)"] t
  have b: "fst (calculate_axle_loads_new_model VehicleAxleLoadCalculator (Float (2 ^ 80)))
     = [NearZeroDenominatorWarning (2 ^ 80)]"
    unfolding denominator_at_float_2p80 by auto
  from denominator_at_float_4e11 a denominator_at_float_2p80 b show ?thesis by (intro conjI)
qed

text \<open>
  Claim C10, amended.  For the configured axle positions 0, 1800, 6600 and 8000 mm the
  denominator \<open>4 S2 - S1\<^sup>2\<close> of the rigid-frame model is, in exact arithmetic, the sum of
  the squared pairwise distances of the axles, 174240000, for every offset.  The program
  computes exactly this value for every integer offset, whether a Python int or a numpy
  int64 (whose wrap-around cancels in the difference); so for every integer offset the test
  \<open>\<bar>denominator\<bar> < 1e-10\<close> is false and the fallback branch, with its warning, is not
  taken.
\<close>

theorem rigid_frame_denominator_integer_offsets:
  "axle_positions VehicleAxleLoadCalculator
      = \<lparr> axle1 = 0, axle2 = 1800, axle3 = 6600, axle4 = 8000 \<rparr> \<and>
   denominator_exact VehicleAxleLoadCalculator d = 174240000 \<and>
   denominator_exact VehicleAxleLoadCalculator d =
      (0 - 1800)\<^sup>2 + (0 - 6600)\<^sup>2 + (0 - 8000)\<^sup>2 + (1800 - 6600)\<^sup>2 + (1800 - 8000)\<^sup>2
        + (6600 - 8000)\<^sup>2 \<and>
   denominator_new VehicleAxleLoadCalculator (PyInt n) = PyInt 174240000 \<and>
   denominator_new VehicleAxleLoadCalculator (NpInt64 n) = NpInt64 174240000 \<and>
   \<not> \<bar>val (denominator_new VehicleAxleLoadCalculator (PyInt n))\<bar> < round_double (1 / 10 ^ 10) \<and>
   \<not> \<bar>val (denominator_new VehicleAxleLoadCalculator (NpInt64 n))\<bar> < round_double (1 / 10 ^ 10) \<and>
   fst (calculate_axle_loads_new_model VehicleAxleLoadCalculator (PyInt n)) = [] \<and>
   fst (calculate_axle_loads_new_model VehicleAxleLoadCalculator (NpInt64 n)) = []"
proof -
  have p: "axle_positions VehicleAxleLoadCalculator
      = \<lparr> axle1 = 0, axle2 = 1800, axle3 = 6600, axle4 = 8000 \<rparr>"
    by (simp add: VehicleAxleLoadCalculator_def)
  have v: "denominator_exact VehicleAxleLoadCalculator d = 174240000"
    unfolding denominator_exact_def p Let_def
    by (simp add: power2_eq_square algebra_simps)
  have e: "denominator_exact VehicleAxleLoadCalculator d =
      (0 - 1800)\<^sup>2 + (0 - 6600)\<^sup>2 + (0 - 8000)\<^sup>2 + (1800 - 6600)\<^sup>2 + (1800 - 8000)\<^sup>2
        + (6600 - 8000)\<^sup>2"
    unfolding v by simp
  have t1: "\<not> \<bar>val (denominator_new VehicleAxleLoadCalculator (PyInt n))\<bar>
              < round_double (1 / 10 ^ 10)"
    unfolding denominator_new_PyInt using threshold_bounds by simp
  have t2: "\<not> \<bar>val (denominator_new VehicleAxleLoadCalculator (NpInt64 n))\<bar>
              < round_double (1 / 10 ^ 10)"
    unfolding denominator_new_NpInt64 using threshold_bounds by simp
  have f1: "fst (calculate_axle_loads_new_model VehicleAxleLoadCalculator (PyInt n)) = []"
    using t1 by (rule no_warning_general)
  have f2: "fst (calculate_axle_loads_new_model VehicleAxleLoadCalculator (NpInt64 n)) = []"
    using t2 by (rule no_warning_general)
  from p v e denominator_new_PyInt[of n] denominator_new_NpInt64[of n] t1 t2 f1 f2
  show ?thesis by (intro conjI)
qed

text \<open>
  Claim C6.  Whenever the denominator \<open>4 S2 - S1\<^sup>2\<close> that the rigid-frame computation of
  the configured vehicle has computed is below \<open>1e-10\<close> in magnitude, it prints its warning
  and returns exactly what the equal-pair computation \<open>calculate_axle_loads_old\<close> returns
  for the same offset, and no exception is raised.  The statement is for offsets of
  magnitude up to \<open>1e150\<close>; beyond about \<open>1e154\<close> the squares leave the range of the doubles
  and no finite denominator reaches the test.  The witness is the float offset \<open>4e11\<close>.
\<close>

theorem rigid_frame_fallback:
  assumes "\<bar>val d\<bar> \<le> 10 ^ 150"
    and "\<bar>val (denominator_new VehicleAxleLoadCalculator d)\<bar> < round_double (1 / 10 ^ 10)"
  shows "\<exists>s. calculate_axle_loads_old_num VehicleAxleLoadCalculator d = ([], Inr s) \<and>
             calculate_axle_loads_new_model VehicleAxleLoadCalculator d
               = ([NearZeroDenominatorWarning (val d)], Inr s)"
  using assms(2) by (rule fallback_general)

theorem rigid_frame_fallback_witness:
  "\<bar>val (Float (4 * 10 ^ 11))\<bar> \<le> 10 ^ 150 \<and>
   \<bar>val (denominator_new VehicleAxleLoadCalculator (Float (4 * 10 ^ 11)))\<bar>
      < round_double (1 / 10 ^ 10) \<and>
   (\<exists>s. calculate_axle_loads_old_num VehicleAxleLoadCalculator (Float (4 * 10 ^ 11)) = ([], Inr s) \<and>
        calculate_axle_loads_new_model VehicleAxleLoadCalculator (Float (4 * 10 ^ 11))
          = ([NearZeroDenominatorWarning (4 * 10 ^ 11)], Inr s))"
proof -
  have h1: "\<bar>val (Float (4 * 10 ^ 11))\<bar> \<le> 10 ^ 150" by simp
  have h2: "\<bar>val (denominator_new VehicleAxleLoadCalculator (Float (4 * 10 ^ 11)))\<bar>
      < round_double (1 / 10 ^ 10)"
    unfolding denominator_at_float_4e11 using threshold_bounds by simp
  from rigid_frame_fallback[OF h1 h2] h1 h2 show ?thesis by simp
qed

subsection \<open>The sweep\<close>




text \<open>
  Claim C8 reads the sweep as sampling exactly the offsets from start to end, the end
  included and never exceeded.  The docstring of \<open>analyze_load_distribution\<close> says the same
  (the centre of gravity moves within the given range), and the code passes
  \<open>end + step\<close> to \<open>arange\<close> to include the end; but that includes the end only when the
  step divides \<open>end - start\<close>.  Otherwise one sample lies beyond the end: for the range
  \<open>(0, 50)\<close> and step 100 the sweep samples the offsets 0 and 100, in both files.
\<close>

theorem sweep_overshoot_at_failing_input:
  "map_sum id (map cg_position)
     (snd (analyze_load_distribution VehicleAxleLoadCalculator (0, 50) 100)) = Inr [0, 100] \<and>
   map_sum id (map cg_position)
     (snd (analyze_load_distribution_new VehicleAxleLoadCalculator (0, 50) 100)) = Inr [0, 100]"
  by (simp add: analyze_positions analyze_new_positions ceiling_three_halves upt_conv_Cons)

text \<open>
  When the step is positive and divides \<open>end - start\<close> the sweep does what the claim
  says: it samples exactly \<open>start, start + step, \<dots>, end\<close>.
\<close>

lemma sweep_reaches_end_when_step_divides:
  assumes "0 < step" and "b = a + int k * step"
  shows "map_sum id (map cg_position)
       (snd (analyze_load_distribution VehicleAxleLoadCalculator (a, b) step))
         = Inr (map (\<lambda>i. of_int (a + int i * step)) [0..<Suc k])"
    and "map_sum id (map cg_position)
       (snd (analyze_load_distribution_new VehicleAxleLoadCalculator (a, b) step))
         = Inr (map (\<lambda>i. of_int (a + int i * step)) [0..<Suc k])"
    and "last (map (\<lambda>i. (of_int (a + int i * step) :: rat)) [0..<Suc k]) = of_int b"
proof -
  have n: "nat \<lceil>(of_int (b + step - a) :: rat) / of_int step\<rceil> = Suc k"
    by (rule ceiling_count[OF assms])
  have s0: "step \<noteq> 0" using assms(1) by simp
  show "map_sum id (map cg_position)
       (snd (analyze_load_distribution VehicleAxleLoadCalculator (a, b) step))
         = Inr (map (\<lambda>i. of_int (a + int i * step)) [0..<Suc k])"
    unfolding analyze_positions n using s0 by simp
  show "map_sum id (map cg_position)
       (snd (analyze_load_distribution_new VehicleAxleLoadCalculator (a, b) step))
         = Inr (map (\<lambda>i. of_int (a + int i * step)) [0..<Suc k])"
    unfolding analyze_new_positions n using s0 by simp
  show "last (map (\<lambda>i. (of_int (a + int i * step) :: rat)) [0..<Suc k]) = of_int b"
    using assms(2) by simp
qed

subsection \<open>The equilibrium point\<close>

text \<open>
  Claim C9.  For every non-empty list of samples \<open>find_special_points\<close> raises nothing and
  its equilibrium point is a sample of the list at which \<open>\<bar>front_total - rear_total\<bar>\<close> is
  least; among the samples attaining the least value it is the first in the order of the
  list.
\<close>

theorem find_equilibrium_first_minimum:
  assumes "results \<noteq> []"
  shows "\<exists>sp. find_special_points results = Inr sp \<and>
     (\<exists>i<length results. equilibrium_point sp = Some (results ! i) \<and>
        (\<forall>j<length results. \<bar>front_total (results ! i) - rear_total (results ! i)\<bar>
                               \<le> \<bar>front_total (results ! j) - rear_total (results ! j)\<bar>) \<and>
        (\<forall>j<i. \<bar>front_total (results ! i) - rear_total (results ! i)\<bar>
                  < \<bar>front_total (results ! j) - rear_total (results ! j)\<bar>))"
proof -
  from max_by_nonempty[OF assms] obtain mf where mf: "max_by front_total results = Inr mf"
    by blast
  from max_by_nonempty[OF assms] obtain mr where mr: "max_by rear_total results = Inr mr"
    by blast
  from equilibrium_fold_invariant[OF assms] obtain i where i: "i < length results"
     "foldl equilibrium_step (None, None) results
        = (Some (load_diff (results ! i)), Some (results ! i))"
     "\<forall>j<length results. load_diff (results ! i) \<le> load_diff (results ! j)"
     "\<forall>j<i. load_diff (results ! i) < load_diff (results ! j)"
    by blast
  show ?thesis
    using mf mr i
    by (auto simp add: find_special_points_def equilibrium_loop_def Let_def load_diff_def)
qed

theorem find_equilibrium_first_minimum_witness:
  "three_samples \<noteq> [] \<and>
   (\<exists>sp. find_special_points three_samples = Inr sp \<and>
      equilibrium_point sp = Some (three_samples ! 1))"
proof -
  have h: "three_samples \<noteq> []" by (simp add: three_samples_def)
  from find_equilibrium_first_minimum[OF h]
  obtain sp i where sp: "find_special_points three_samples = Inr sp"
    and i: "i < length three_samples" "equilibrium_point sp = Some (three_samples ! i)"
    and least: "\<forall>j<length three_samples.
        \<bar>front_total (three_samples ! i) - rear_total (three_samples ! i)\<bar>
          \<le> \<bar>front_total (three_samples ! j) - rear_total (three_samples ! j)\<bar>"
    and first: "\<forall>j<i. \<bar>front_total (three_samples ! i) - rear_total (three_samples ! i)\<bar>
                  < \<bar>front_total (three_samples ! j) - rear_total (three_samples ! j)\<bar>"
    by blast
  from i(1) have "i = 0 \<or> i = 1 \<or> i = 2"
    by (auto simp add: three_samples_def)
  moreover have "i \<noteq> 0"
  proof
    assume "i = 0"
    with least[rule_format, of 1] show False by (simp add: three_samples_def)
  qed
  moreover have "i \<noteq> 2"
  proof
    assume "i = 2"
    with first[rule_format, of 1] show False by (simp add: three_samples_def)
  qed
  ultimately have "i = 1" by blast
  with sp i(2) h show ?thesis by blast
qed

section \<open>Properties of the performance analysis\<close>

subsection \<open>Auxiliary facts\<close>

lemma add_arrays_map:
  "add_arrays (map p xs) (map q xs) = map (\<lambda>x. p x + q x) xs"
  by (induction xs) (simp_all add: add_arrays_def)

lemma calculate_resistance_force_eq:
  "calculate_resistance_force c vs =
     Inr \<lparr> total = map (resistance_total c) vs,
           rolling = map (\<lambda>v. self_m c * self_g c * self_f c) vs,
           air = map (\<lambda>v. 0.5 * self_Cd c * self_A c * self_rho c * (v / 3.6) ^ 2) vs,
           grade = map (\<lambda>v. 0) vs \<rparr>"
  by (simp add: calculate_resistance_force_def Let_def add_arrays_map resistance_total_def o_def)

lemma argmin_props:
  assumes "argmin xs = Inr i"
  shows "i < length xs \<and> (\<forall>j<length xs. xs ! i \<le> xs ! j) \<and> (\<forall>j<i. xs ! i < xs ! j)"
proof -
  define P where "P = (\<lambda>x. x \<noteq> Min (set xs))"
  from assms have ne: "xs \<noteq> []" and i: "i = length (takeWhile P xs)"
    by (auto simp add: argmin_def P_def split: if_splits)
  have "Min (set xs) \<in> set xs" using ne by (intro Min_in) simp_all
  then have "\<not> (\<forall>x \<in> set xs. P x)" unfolding P_def by blast
  then have neq: "takeWhile P xs \<noteq> xs"
    by (simp only: takeWhile_eq_all_conv not_False_eq_True)
  have lt: "i < length xs"
  proof (rule ccontr)
    assume "\<not> i < length xs"
    with length_takeWhile_le[of P xs] have "length (takeWhile P xs) = length xs"
      unfolding i by simp
    with takeWhile_eq_take[of P xs] have "takeWhile P xs = xs" by simp
    with neq show False by simp
  qed
  from nth_length_takeWhile[of P xs] lt
  have eq: "xs ! i = Min (set xs)" unfolding i P_def by blast
  have le: "\<forall>j<length xs. xs ! i \<le> xs ! j"
    unfolding eq by simp
  have first: "\<forall>j<i. xs ! i < xs ! j"
  proof (intro allI impI)
    fix j assume j: "j < i"
    then have "takeWhile P xs ! j = xs ! j"
      unfolding i by (rule takeWhile_nth)
    moreover have "takeWhile P xs ! j \<in> set (takeWhile P xs)"
      using j unfolding i by (rule nth_mem)
    ultimately have "xs ! j \<in> set (takeWhile P xs)" by simp
    then have "P (xs ! j)" by (rule set_takeWhileD[THEN conjunct2])
    then have "xs ! j \<noteq> xs ! i" unfolding P_def eq .
    moreover have "xs ! i \<le> xs ! j" using le j lt by simp
    ultimately show "xs ! i < xs ! j" by simp
  qed
  from lt le first show ?thesis by blast
qed

lemma speed_range_length: "length speed_range = 500"
  by (simp add: speed_range_def linspace_def)

lemma speed_range_nth: "i < 500 \<Longrightarrow> speed_range ! i = of_nat i * (220 / 499)"
  by (simp add: speed_range_def linspace_def)

lemma speed_range_mono: "i \<le> j \<Longrightarrow> j < 500 \<Longrightarrow> speed_range ! i \<le> speed_range ! j"
  by (simp add: speed_range_nth)

lemma where_ge_set:
  "set (where_ge a b) = {i. i < min (length a) (length b) \<and> a ! i \<ge> b ! i}"
  by (auto simp add: where_ge_def)

lemma where_ge_sorted: "sorted (where_ge a b)"
  by (simp add: where_ge_def sorted_wrt_filter)

lemma sorted_last_greatest:
  fixes xs :: "nat list"
  assumes "sorted xs" "xs \<noteq> []"
  shows "last xs \<in> set xs \<and> (\<forall>x \<in> set xs. x \<le> last xs)"
proof
  show "last xs \<in> set xs" using assms(2) by (rule last_in_set)
  show "\<forall>x \<in> set xs. x \<le> last xs"
  proof
    fix x assume "x \<in> set xs"
    then obtain k where k: "k < length xs" "xs ! k = x" by (auto simp add: in_set_conv_nth)
    have "xs ! k \<le> xs ! (length xs - 1)"
      using assms(1) k(1) by (intro sorted_nth_mono) simp_all
    then show "x \<le> last xs" using k(2) assms(2) by (simp add: last_conv_nth)
  qed
qed

lemma arcsin_half: "arcsin (1 / 2) = pi / 6"
proof -
  have "arcsin (sin (pi / 6)) = pi / 6"
    by (rule arcsin_sin) (use pi_gt_zero in simp_all)
  then show ?thesis by (simp add: sin_30)
qed

lemma arcsin_clamped_bounds:
  assumes "0 \<le> s" "s \<le> 1 / 2"
  shows "0 \<le> arcsin s * 180 / pi \<and> arcsin s * 180 / pi \<le> 30"
proof -
  have "arcsin 0 \<le> arcsin s" using assms by (intro arcsin_le_arcsin) simp_all
  then have lo: "0 \<le> arcsin s" by simp
  have "arcsin s \<le> arcsin (1 / 2)" using assms by (intro arcsin_le_arcsin) simp_all
  then have hi: "arcsin s \<le> pi / 6" by (simp only: arcsin_half)
  have "arcsin s * 180 \<le> 30 * pi" using hi by simp
  then have "arcsin s * 180 / pi \<le> 30"
    using pi_gt_zero by (simp only: pos_divide_le_eq)
  moreover have "0 \<le> arcsin s * 180 / pi" using lo pi_gt_zero by simp
  ultimately show ?thesis by blast
qed

lemma round1_zero: "round1 0 = 0"
  by (simp add: round1_def)

lemma round1_le:
  assumes "x \<le> of_int n / 10"
  shows "round1 x \<le> of_int n / 10"
proof -
  define s where "s = x * 10"
  define fl where "fl = \<lfloor>s\<rfloor>"
  have sn: "s \<le> of_int n" using assms unfolding s_def by simp
  then have fln: "fl \<le> n" unfolding fl_def by (simp add: floor_le_iff)
  have r: "round1 x = (if s - of_int fl < 1 / 2 then of_int fl
          else if s - of_int fl > 1 / 2 then of_int (fl + 1)
          else if even fl then of_int fl else of_int (fl + 1)) / 10"
    unfolding round1_def Let_def s_def fl_def by simp
  show ?thesis
  proof (cases "fl = n")
    case True
    have "of_int fl \<le> s" unfolding fl_def by simp
    with sn True have "s - of_int fl = 0" by simp
    then show ?thesis unfolding r using True by simp
  next
    case False
    with fln have "fl + 1 \<le> n" by simp
    then have "(of_int (fl + 1) :: real) \<le> of_int n" by (simp only: of_int_le_iff)
    moreover have "(of_int fl :: real) \<le> of_int (fl + 1)" by simp
    ultimately show ?thesis unfolding r by (auto simp add: divide_right_mono)
  qed
qed

lemma round1_ge:
  assumes "of_int n / 10 \<le> x"
  shows "of_int n / 10 \<le> round1 x"
proof -
  define s where "s = x * 10"
  define fl where "fl = \<lfloor>s\<rfloor>"
  have sn: "of_int n \<le> s" using assms unfolding s_def by simp
  then have fln: "n \<le> fl" unfolding fl_def by (simp add: le_floor_iff)
  have r: "round1 x = (if s - of_int fl < 1 / 2 then of_int fl
          else if s - of_int fl > 1 / 2 then of_int (fl + 1)
          else if even fl then of_int fl else of_int (fl + 1)) / 10"
    unfolding round1_def Let_def s_def fl_def by simp
  have "(of_int n :: real) \<le> of_int fl" using fln by (simp only: of_int_le_iff)
  moreover have "(of_int fl :: real) \<le> of_int (fl + 1)" by simp
  ultimately show ?thesis unfolding r by (auto simp add: divide_right_mono)
qed

lemma round1_tenth: "round1 (of_int n / 10) = of_int n / 10"
  using round1_le[of "of_int n / 10" n] round1_ge[of n "of_int n / 10"] by simp

lemma round1_accel: "round1 ((100 / 3.6) / 2.5) = 11.1"
proof -
  have f: "\<lfloor>(100 / 3.6) / 2.5 * 10 :: real\<rfloor> = 111"
    by (rule floor_unique) simp_all
  show ?thesis
    unfolding round1_def Let_def f by simp
qed

lemma available_force_char:
  assumes "available_force c = Inr avail"
  shows "\<exists>v_1st ft_1st idx. calculate_tractive_force c 1 = Inr (v_1st, ft_1st) \<and>
           idx < length v_1st \<and> idx < length ft_1st \<and>
           (\<forall>j<length v_1st. \<bar>v_1st ! idx - 10\<bar> \<le> \<bar>v_1st ! j - 10\<bar>) \<and>
           avail = ft_1st ! idx - resistance_total c 10"
proof -
  from assms obtain v_1st ft_1st where tf: "calculate_tractive_force c 1 = Inr (v_1st, ft_1st)"
    by (auto simp add: available_force_def split: sum.splits)
  from assms tf obtain idx where am: "argmin (map (\<lambda>v. \<bar>v - 10\<bar>) v_1st) = Inr idx"
    by (auto simp add: available_force_def split: sum.splits)
  from assms tf am have lt: "idx < length ft_1st"
    by (auto simp add: available_force_def split: if_splits)
  from assms tf am lt have av: "avail = ft_1st ! idx - resistance_total c 10"
    by (simp add: available_force_def calculate_resistance_force_eq)
  from argmin_props[OF am] have p: "idx < length v_1st"
      "\<forall>j<length v_1st. \<bar>v_1st ! idx - 10\<bar> \<le> \<bar>v_1st ! j - 10\<bar>"
    by auto
  from tf p lt av show ?thesis by blast
qed

lemma max_grade_char:
  assumes "available_force c = Inr avail"
  shows "max_grade c =
           Inr (if avail > 0
                then (arcsin (min (max (avail / (self_m c * self_g c)) 0) (1 / 2)) * 180 / pi,
                      tan (arcsin (min (max (avail / (self_m c * self_g c)) 0) (1 / 2))) * 100)
                else (0, 0))"
  using assms by (simp add: max_grade_def Let_def)


lemma interp_length: "interp xs xp fp = Inr ys \<Longrightarrow> length ys = length xs"
  by (auto simp add: interp_def split: if_splits)

lemma intersection_idx_char:
  assumes "intersection_idx c gear = Inr idx"
  shows "\<exists>v_5 ft_5 ft_interp. calculate_tractive_force c gear = Inr (v_5, ft_5) \<and>
           interp speed_range v_5 ft_5 = Inr ft_interp \<and> length ft_interp = 500 \<and>
           idx = where_ge ft_interp (map (resistance_total c) speed_range)"
proof -
  from assms obtain v_5 ft_5 where tf: "calculate_tractive_force c gear = Inr (v_5, ft_5)"
    by (auto simp add: intersection_idx_def calculate_resistance_force_eq split: sum.splits)
  from assms tf obtain ft_interp where ip: "interp speed_range v_5 ft_5 = Inr ft_interp"
    by (auto simp add: intersection_idx_def calculate_resistance_force_eq split: sum.splits)
  from assms tf ip have w: "idx = where_ge ft_interp (map (resistance_total c) speed_range)"
    by (simp add: intersection_idx_def calculate_resistance_force_eq)
  from interp_length[OF ip] have "length ft_interp = 500" by (simp add: speed_range_length)
  with tf ip w show ?thesis by blast
qed


lemma interp_sorted_zero: "\<forall>p \<in> set pts. snd p = 0 \<Longrightarrow> interp_sorted x pts = 0"
  by (induction x pts rule: interp_sorted.induct) simp_all

lemma interp_point_zero:
  assumes "fp \<noteq> []" and "\<forall>y \<in> set fp. y = 0"
  shows "interp_point x xp fp = 0"
proof -
  have "hd fp \<in> set fp" using assms(1) by (rule hd_in_set)
  with assms(2) have h: "hd fp = 0" by blast
  have "\<forall>p \<in> set (zip xp fp). snd p = 0"
  proof
    fix p assume "p \<in> set (zip xp fp)"
    moreover obtain a b where ab: "p = (a, b)" by (cases p)
    ultimately have "(a, b) \<in> set (zip xp fp)" by simp
    then have "b \<in> set fp" by (rule set_zip_rightD)
    then have "snd p \<in> set fp" using ab by simp
    with assms(2) show "snd p = 0" by blast
  qed
  then have "interp_sorted x (zip xp fp) = 0" by (rule interp_sorted_zero)
  with h show ?thesis by (simp add: interp_point_def)
qed

lemma tractive_zero_torque:
  assumes "map_of (gear_ratios c) gear = Some ig" and "\<forall>T \<in> set (engine_torque c). T = 0"
  shows "calculate_tractive_force c gear =
           Inr (map (\<lambda>n. 0.377 * n * self_r c / (ig * final_drive_ratio c)) (engine_speed c),
                map (\<lambda>T. 0) (engine_torque c))"
proof -
  have "map (\<lambda>T. T * ig * final_drive_ratio c * self_eta_T c / self_r c) (engine_torque c)
          = map (\<lambda>T. 0) (engine_torque c)"
    using assms(2) by (intro map_cong) simp_all
  with assms(1) show ?thesis by (simp add: calculate_tractive_force_def Let_def)
qed

lemma argmin_nonempty: "xs \<noteq> [] \<Longrightarrow> \<exists>i. argmin xs = Inr i"
  by (simp add: argmin_def)

lemma zero_torque_indicators:
  assumes g5: "map_of (gear_ratios c) 5 = Some ig5"
    and g1: "map_of (gear_ratios c) 1 = Some ig1"
    and z: "\<forall>T \<in> set (engine_torque c). T = 0"
    and ne: "engine_speed c \<noteq> []"
    and len: "length (engine_torque c) = length (engine_speed c)"
    and r10: "0 \<le> resistance_total c 10"
  shows "intersection_idx c 5 = Inr (filter (\<lambda>i. resistance_total c (speed_range ! i) \<le> 0) [0..<500])"
    and "available_force c = Inr (- resistance_total c 10)"
    and "max_grade c = Inr (0, 0)"
proof -
  define v5 where "v5 = map (\<lambda>n. 0.377 * n * self_r c / (ig5 * final_drive_ratio c)) (engine_speed c)"
  define ft where "ft = map (\<lambda>T. 0 :: real) (engine_torque c)"
  have tf5: "calculate_tractive_force c 5 = Inr (v5, ft)"
    unfolding v5_def ft_def by (rule tractive_zero_torque[OF g5 z])
  have ftne: "ft \<noteq> []" unfolding ft_def using ne len by auto
  have ftz: "\<forall>y \<in> set ft. y = 0" unfolding ft_def by simp
  have v5ne: "v5 \<noteq> []" unfolding v5_def using ne by simp
  have lens: "length ft = length v5" unfolding ft_def v5_def using len by simp
  have ip: "interp speed_range v5 ft = Inr (map (\<lambda>x. 0) speed_range)"
    using v5ne lens by (simp add: interp_def interp_point_zero[OF ftne ftz])
  have "where_ge (map (\<lambda>x. 0) speed_range) (map (resistance_total c) speed_range)
          = filter (\<lambda>i. map (resistance_total c) speed_range ! i \<le> map (\<lambda>x. 0) speed_range ! i)
              [0..<500]"
    by (simp add: where_ge_def speed_range_length)
  also have "\<dots> = filter (\<lambda>i. resistance_total c (speed_range ! i) \<le> 0) [0..<500]"
    by (rule filter_cong) (simp_all add: speed_range_length)
  finally have wg: "where_ge (map (\<lambda>x. 0) speed_range) (map (resistance_total c) speed_range)
          = filter (\<lambda>i. resistance_total c (speed_range ! i) \<le> 0) [0..<500]" .
  show "intersection_idx c 5 = Inr (filter (\<lambda>i. resistance_total c (speed_range ! i) \<le> 0) [0..<500])"
    using tf5 ip wg by (simp add: intersection_idx_def calculate_resistance_force_eq)
  define v1 where "v1 = map (\<lambda>n. 0.377 * n * self_r c / (ig1 * final_drive_ratio c)) (engine_speed c)"
  have tf1: "calculate_tractive_force c 1 = Inr (v1, ft)"
    unfolding v1_def ft_def by (rule tractive_zero_torque[OF g1 z])
  have "map (\<lambda>v. \<bar>v - 10\<bar>) v1 \<noteq> []" unfolding v1_def using ne by simp
  from argmin_nonempty[OF this] obtain i where am: "argmin (map (\<lambda>v. \<bar>v - 10\<bar>) v1) = Inr i"
    by blast
  from argmin_props[OF am] have "i < length v1" by simp
  then have ilt: "i < length ft" unfolding v1_def ft_def using len by simp
  then have "ft ! i \<in> set ft" by (rule nth_mem)
  with ftz have fti: "ft ! i = 0" by blast
  show av: "available_force c = Inr (- resistance_total c 10)"
    using tf1 am ilt fti by (simp add: available_force_def calculate_resistance_force_eq)
  show "max_grade c = Inr (0, 0)"
    using av r10 by (simp add: max_grade_def)
qed

lemma no_torque_vehicle_facts:
  "map_of (gear_ratios no_torque_vehicle) 5 = Some 6.53"
  "map_of (gear_ratios no_torque_vehicle) 1 = Some 13.8"
  "\<forall>T \<in> set (engine_torque no_torque_vehicle). T = 0"
  "engine_speed no_torque_vehicle \<noteq> []"
  "length (engine_torque no_torque_vehicle) = length (engine_speed no_torque_vehicle)"
  "resistance_total no_torque_vehicle v = 12115.35 + 3.64812 * (v / 3.6) ^ 2"
  by (simp_all add: no_torque_vehicle_def VehiclePerformanceAnalysis_def resistance_total_def)

lemma no_torque_frictionless_vehicle_facts:
  "map_of (gear_ratios no_torque_frictionless_vehicle) 5 = Some 6.53"
  "map_of (gear_ratios no_torque_frictionless_vehicle) 1 = Some 13.8"
  "\<forall>T \<in> set (engine_torque no_torque_frictionless_vehicle). T = 0"
  "engine_speed no_torque_frictionless_vehicle \<noteq> []"
  "length (engine_torque no_torque_frictionless_vehicle)
     = length (engine_speed no_torque_frictionless_vehicle)"
  "resistance_total no_torque_frictionless_vehicle v = 3.64812 * (v / 3.6) ^ 2"
  by (simp_all add: no_torque_frictionless_vehicle_def no_torque_vehicle_def
      VehiclePerformanceAnalysis_def resistance_total_def)

lemma no_torque_idx: "intersection_idx no_torque_vehicle 5 = Inr []"
proof -
  have pos: "\<And>v. 0 < resistance_total no_torque_vehicle v"
  proof -
    fix v :: real
    have "0 \<le> 3.64812 * (v / 3.6) ^ 2" by simp
    moreover have "(0 :: real) < 12115.35" by simp
    ultimately show "0 < resistance_total no_torque_vehicle v"
      unfolding no_torque_vehicle_facts(6) by (rule add_pos_nonneg[rotated])
  qed
  have r10: "0 \<le> resistance_total no_torque_vehicle 10" using pos[of 10] by simp
  have "filter (\<lambda>i. resistance_total no_torque_vehicle (speed_range ! i) \<le> 0) [0..<500] = []"
    unfolding filter_empty_conv using pos by (simp add: not_le)
  with zero_torque_indicators(1)[OF no_torque_vehicle_facts(1-5) r10]
  show ?thesis by simp
qed

lemma no_torque_frictionless_idx: "intersection_idx no_torque_frictionless_vehicle 5 = Inr [0]"
proof -
  let ?P = "\<lambda>i. resistance_total no_torque_frictionless_vehicle (speed_range ! i) \<le> 0"
  have r10: "0 \<le> resistance_total no_torque_frictionless_vehicle 10"
    unfolding no_torque_frictionless_vehicle_facts(6) by simp
  have p0: "?P 0"
    unfolding no_torque_frictionless_vehicle_facts(6) by (simp add: speed_range_nth)
  have rest: "filter ?P [Suc 0..<500] = []"
    unfolding filter_empty_conv
  proof
    fix i assume "i \<in> set [Suc 0..<500]"
    then have i: "0 < i" "i < 500" by simp_all
    then have "0 < speed_range ! i" by (simp add: speed_range_nth)
    then have "0 < 3.64812 * (speed_range ! i / 3.6) ^ 2" by simp
    then show "\<not> ?P i" unfolding no_torque_frictionless_vehicle_facts(6) by (simp add: not_le)
  qed
  have "[0..<500] = 0 # [Suc 0..<500]" by (rule upt_conv_Cons) simp
  then have "filter ?P [0..<500] = [0]" using p0 rest by simp
  with zero_torque_indicators(1)[OF no_torque_frictionless_vehicle_facts(1-5) r10]
  show ?thesis by simp
qed

lemma no_torque_report:
  "calculate_performance_indicators no_torque_vehicle =
     Inr \<lparr> max_speed_kmh = IntValue 0, max_grade_deg = 0, max_grade_percent = 0,
           accel_time_0_100 = 11.1 \<rparr>"
proof -
  have r10: "0 \<le> resistance_total no_torque_vehicle 10"
    unfolding no_torque_vehicle_facts(6) by simp
  have ms: "max_speed no_torque_vehicle 5 = Inr (IntValue 0)"
    by (simp add: max_speed_def no_torque_idx)
  have mg: "max_grade no_torque_vehicle = Inr (0, 0)"
    by (rule zero_torque_indicators(3)[OF no_torque_vehicle_facts(1-5) r10])
  show ?thesis
    unfolding calculate_performance_indicators_def ms mg Let_def round1_accel
    by (simp add: round1_zero)
qed

lemma no_torque_frictionless_report:
  "calculate_performance_indicators no_torque_frictionless_vehicle =
     Inr \<lparr> max_speed_kmh = FloatValue 0, max_grade_deg = 0, max_grade_percent = 0,
           accel_time_0_100 = 11.1 \<rparr>"
proof -
  have r10: "0 \<le> resistance_total no_torque_frictionless_vehicle 10"
    unfolding no_torque_frictionless_vehicle_facts(6) by simp
  have ms: "max_speed no_torque_frictionless_vehicle 5 = Inr (FloatValue 0)"
    by (simp add: max_speed_def no_torque_frictionless_idx speed_range_nth)
  have mg: "max_grade no_torque_frictionless_vehicle = Inr (0, 0)"
    by (rule zero_torque_indicators(3)[OF no_torque_frictionless_vehicle_facts(1-5) r10])
  show ?thesis
    unfolding calculate_performance_indicators_def ms mg Let_def round1_accel
    by (simp add: round1_zero)
qed

lemma configured_tf1:
  "calculate_tractive_force VehiclePerformanceAnalysis 1 =
   Inr ([413946 / 154721, 1034865 / 309442, 620919 / 154721, 206973 / 44206,
       827892 / 154721, 1862757 / 309442, 3932487 / 618884,
       1034865 / 154721, 620919 / 88412, 2276703 / 309442],
      [12377680 / 61, 14234332 / 61, 14234332 / 61, 14234332 / 61,
       322748006 / 1525, 58329817 / 305, 276795869 / 1525, 260550164 / 1525,
       48891836 / 305, 9128539 / 61])"
  by (simp add: calculate_tractive_force_def VehiclePerformanceAnalysis_def Let_def)

lemma configured_argmin:
  "argmin (map (\<lambda>v. \<bar>v - 10\<bar>) [413946 / 154721, 1034865 / 309442, 620919 / 154721, 206973 / 44206,
       827892 / 154721, 1862757 / 309442, 3932487 / 618884,
       1034865 / 154721, 620919 / 88412, 2276703 / 309442 :: real]) = Inr 9"
  by (simp add: argmin_def)

lemma configured_available_force:
  "available_force VehiclePerformanceAnalysis = Inr (9058808401 / 65880)"
  unfolding available_force_def configured_tf1
  by (simp only: prod.case sum.case configured_argmin)
    (simp add: calculate_resistance_force_eq resistance_total_def VehiclePerformanceAnalysis_def
      power2_eq_square)

lemma configured_divisors: "divisors_nonzero VehiclePerformanceAnalysis"
  by (simp add: divisors_nonzero_def VehiclePerformanceAnalysis_def)

lemma no_torque_divisors: "divisors_nonzero no_torque_vehicle"
  by (simp add: divisors_nonzero_def no_torque_vehicle_def VehiclePerformanceAnalysis_def)

lemma no_torque_frictionless_divisors: "divisors_nonzero no_torque_frictionless_vehicle"
  by (simp add: divisors_nonzero_def no_torque_frictionless_vehicle_def no_torque_vehicle_def
      VehiclePerformanceAnalysis_def)

lemma configured_ratio:
  "(1 / 2 :: real) \<le> (9058808401 / 65880) / (self_m VehiclePerformanceAnalysis * self_g VehiclePerformanceAnalysis)"
  by (simp add: VehiclePerformanceAnalysis_def)

lemma interp_sorted_lower:
  assumes "sorted_wrt (<) (map fst pts)" and "\<forall>p \<in> set pts. L \<le> snd p" and "pts \<noteq> []"
    and "fst (hd pts) \<le> x"
  shows "L \<le> interp_sorted x pts"
  using assms
proof (induction x pts rule: interp_sorted.induct)
  case (1 x)
  then show ?case by simp
next
  case (2 x x0 y0)
  then show ?case by simp
next
  case (3 x x0 y0 x1 y1 rest)
  show ?case
  proof (cases "x < x1")
    case True
    from "3.prems" have lt: "x0 < x1" and le: "x0 \<le> x" and y0: "L \<le> y0" and y1: "L \<le> y1"
      by simp_all
    define t where "t = (x - x0) / (x1 - x0)"
    have t0: "0 \<le> t" unfolding t_def using lt le by simp
    have t1: "t \<le> 1" unfolding t_def using lt True by simp
    have "(y1 - y0) / (x1 - x0) * (x - x0) = t * (y1 - y0)"
      unfolding t_def by simp
    then have eq: "(y1 - y0) / (x1 - x0) * (x - x0) + y0 = (1 - t) * y0 + t * y1"
      by (simp add: algebra_simps)
    have "(1 - t) * L + t * L \<le> (1 - t) * y0 + t * y1"
      using t0 t1 y0 y1 by (intro add_mono mult_left_mono) simp_all
    then have "L \<le> (1 - t) * y0 + t * y1" by (simp add: algebra_simps)
    with eq y0 True show ?thesis by simp
  next
    case False
    have "L \<le> interp_sorted x ((x1, y1) # rest)"
      using False "3.prems" by (intro "3.IH") simp_all
    with False show ?thesis by simp
  qed
qed

lemma interp_point_lower:
  assumes "sorted_wrt (<) xp" and "\<forall>y \<in> set fp. L \<le> y" and "xp \<noteq> []"
    and "length fp = length xp"
  shows "L \<le> interp_point x xp fp"
proof (cases "x < hd xp")
  case True
  have "fp \<noteq> []" using assms(3,4) by auto
  then have "hd fp \<in> set fp" by (rule hd_in_set)
  with assms(2) True show ?thesis by (simp add: interp_point_def)
next
  case False
  have ne: "zip xp fp \<noteq> []" using assms(3,4) by (cases xp; cases fp) simp_all
  have m: "map fst (zip xp fp) = xp" using assms(4) by (simp add: map_fst_zip)
  have s: "sorted_wrt (<) (map fst (zip xp fp))" unfolding m by (rule assms(1))
  have b: "\<forall>p \<in> set (zip xp fp). L \<le> snd p"
  proof
    fix p assume p: "p \<in> set (zip xp fp)"
    obtain a b where ab: "p = (a, b)" by (cases p)
    with p have "(a, b) \<in> set (zip xp fp)" by simp
    then have "b \<in> set fp" by (rule set_zip_rightD)
    with assms(2) ab show "L \<le> snd p" by simp
  qed
  have "fst (hd (zip xp fp)) = hd xp" using assms(3,4) by (cases xp; cases fp) simp_all
  with False have h: "fst (hd (zip xp fp)) \<le> x" by simp
  from interp_sorted_lower[OF s b ne h] False show ?thesis by (simp add: interp_point_def)
qed

lemma configured_tf5:
  "\<exists>v_5 ft_5. calculate_tractive_force VehiclePerformanceAnalysis 5 = Inr (v_5, ft_5) \<and>
      sorted_wrt (<) v_5 \<and> v_5 \<noteq> [] \<and> length ft_5 = length v_5 \<and> (\<forall>y \<in> set ft_5. 70000 \<le> y)"
  by (simp add: calculate_tractive_force_def VehiclePerformanceAnalysis_def Let_def)

lemma configured_resistance_bound:
  assumes "0 \<le> v" "v \<le> 220"
  shows "resistance_total VehiclePerformanceAnalysis v \<le> 70000"
proof -
  have "(v / 3.6) ^ 2 \<le> (220 / 3.6) ^ 2"
    using assms by (intro power_mono divide_right_mono) simp_all
  then have "3.64812 * (v / 3.6) ^ 2 \<le> 3.64812 * (220 / 3.6) ^ 2"
    by (intro mult_left_mono) simp_all
  also have "\<dots> \<le> 14000" by (simp add: power2_eq_square)
  finally have "3.64812 * (v / 3.6) ^ 2 \<le> 14000" .
  moreover have "resistance_total VehiclePerformanceAnalysis v = 12115.35 + 3.64812 * (v / 3.6) ^ 2"
    by (simp add: resistance_total_def VehiclePerformanceAnalysis_def)
  ultimately show ?thesis by simp
qed

lemma speed_range_bounds: "i < 500 \<Longrightarrow> 0 \<le> speed_range ! i \<and> speed_range ! i \<le> 220"
proof -
  assume i: "i < 500"
  then have "(of_nat i :: real) \<le> 499" by simp
  then have "of_nat i * (220 / 499) \<le> (499 :: real) * (220 / 499)"
    by (intro mult_right_mono) simp_all
  with i show ?thesis by (simp add: speed_range_nth)
qed

lemma configured_idx: "intersection_idx VehiclePerformanceAnalysis 5 = Inr [0..<500]"
proof -
  from configured_tf5 obtain v_5 ft_5
    where tf: "calculate_tractive_force VehiclePerformanceAnalysis 5 = Inr (v_5, ft_5)"
      and s: "sorted_wrt (<) v_5" and ne: "v_5 \<noteq> []" and len: "length ft_5 = length v_5"
      and lb: "\<forall>y \<in> set ft_5. 70000 \<le> y"
    by blast
  define ft_interp where "ft_interp = map (\<lambda>x. interp_point x v_5 ft_5) speed_range"
  have ip: "interp speed_range v_5 ft_5 = Inr ft_interp"
    using ne len by (simp add: interp_def ft_interp_def)
  have "where_ge ft_interp (map (resistance_total VehiclePerformanceAnalysis) speed_range)
          = filter (\<lambda>i. map (resistance_total VehiclePerformanceAnalysis) speed_range ! i
                          \<le> ft_interp ! i) [0..<500]"
    by (simp add: where_ge_def ft_interp_def speed_range_length)
  also have "\<dots> = filter (\<lambda>i. True) [0..<500]"
  proof (rule filter_cong)
    fix i assume "i \<in> set [0..<500]"
    then have i: "i < 500" by simp
    have "resistance_total VehiclePerformanceAnalysis (speed_range ! i) \<le> 70000"
      using speed_range_bounds[OF i] by (intro configured_resistance_bound) simp_all
    also have "70000 \<le> interp_point (speed_range ! i) v_5 ft_5"
      by (rule interp_point_lower[OF s lb ne len])
    finally show "(map (resistance_total VehiclePerformanceAnalysis) speed_range ! i
                          \<le> ft_interp ! i) = True"
      using i by (simp add: ft_interp_def speed_range_length)
  qed simp
  finally have "where_ge ft_interp (map (resistance_total VehiclePerformanceAnalysis) speed_range)
          = [0..<500]" by simp
  with tf ip show ?thesis
    by (simp add: intersection_idx_def calculate_resistance_force_eq)
qed

lemma configured_max_speed: "max_speed VehiclePerformanceAnalysis 5 = Inr (FloatValue 220)"
proof -
  have "last [0..<500] = (499 :: nat)" by simp
  then show ?thesis
    by (simp add: max_speed_def configured_idx speed_range_nth)
qed

lemma configured_max_grade:
  "max_grade VehiclePerformanceAnalysis = Inr (30, 100 / sqrt 3)"
proof -
  define q :: real where
    "q = (9058808401 / 65880) / (self_m VehiclePerformanceAnalysis * self_g VehiclePerformanceAnalysis)"
  have "1 / 2 \<le> q" unfolding q_def by (rule configured_ratio)
  then have "min (max q 0) (1 / 2) = 1 / 2" by (simp add: min_def max_def)
  then have h: "min (max ((9058808401 / 65880)
        / (self_m VehiclePerformanceAnalysis * self_g VehiclePerformanceAnalysis)) 0) (1 / 2)
          = (1 / 2 :: real)"
    unfolding q_def .
  have t: "tan (pi / 6) * 100 = 100 / sqrt 3" by (simp add: tan_30)
  have a: "arcsin (1 / 2) * 180 / pi = (30 :: real)" by (simp only: arcsin_half) simp
  have p: "(0 :: real) < 9058808401 / 65880" by simp
  show ?thesis
    unfolding max_grade_char[OF configured_available_force] h
    using p a t by (simp only: if_True arcsin_half)
qed

lemma round1_tan30: "round1 (100 / sqrt 3) = 57.7"
proof -
  have lo: "(577 :: real) \<le> 1000 / sqrt 3"
  proof -
    have "sqrt 3 \<le> 1000 / 577" by (rule real_le_lsqrt) (simp_all add: power2_eq_square)
    then show ?thesis by (simp add: field_simps)
  qed
  have hi: "1000 / sqrt 3 < (577.5 :: real)"
  proof -
    have "(1000 / 577.5 :: real) < sqrt 3" by (rule real_less_rsqrt) (simp add: power2_eq_square)
    then show ?thesis by (simp add: field_simps)
  qed
  have s: "100 / sqrt 3 * 10 = 1000 / sqrt 3" by simp
  have f: "\<lfloor>1000 / sqrt 3\<rfloor> = 577"
    by (rule floor_unique) (use lo hi in simp_all)
  show ?thesis
    unfolding round1_def Let_def s f using hi by simp
qed

text \<open>
  The report of the configured vehicle: 220.0 km/h, 30.0 degrees, 57.7 percent and
  11.1 seconds.
\<close>

lemma configured_report:
  "calculate_performance_indicators VehiclePerformanceAnalysis =
     Inr \<lparr> max_speed_kmh = FloatValue 220, max_grade_deg = 30, max_grade_percent = 57.7,
           accel_time_0_100 = 11.1 \<rparr>"
proof -
  have r220: "round1 220 = 220" using round1_tenth[of 2200] by simp
  have r30: "round1 30 = 30" using round1_tenth[of 300] by simp
  show ?thesis
    unfolding calculate_performance_indicators_def configured_max_speed configured_max_grade
    by (simp only: sum.case prod.case Let_def round1_accel round1_tan30 r220 r30
        round_scalar.simps)
qed

subsection \<open>Resistance force\<close>

text \<open>
  Claim C5 as stated fails: \<open>calculate_resistance_force\<close> has no check of its argument.
  For the configured vehicle and the speed \<open>-36\<close> km/h it returns a rolling resistance
  of 12115.35 N, an air resistance of 364.812 N and their sum; nothing is raised.
\<close>

theorem resistance_negative_speed_counterexample:
  "calculate_resistance_force VehiclePerformanceAnalysis [- 36] =
     Inr \<lparr> total = [12480.162], rolling = [12115.35], air = [364.812], grade = [0] \<rparr>"
  by (simp add: calculate_resistance_force_eq resistance_total_def VehiclePerformanceAnalysis_def
      power2_eq_square)

text \<open>
  Claim C5, amended.  The resistance-force computation is defined for every speed,
  negative speeds included, and never fails: for every instance and every array of
  speeds it returns the rolling resistance \<open>m g f\<close>, the air resistance
  \<open>0.5 Cd A \<rho> (v / 3.6)\<^sup>2\<close>, the grade resistance 0 and their sum, and the result for the
  negated speeds is the result for the speeds themselves.
\<close>

theorem resistance_defined_for_every_speed:
  "(\<exists>res. calculate_resistance_force c vs = Inr res \<and>
      rolling res = map (\<lambda>v. self_m c * self_g c * self_f c) vs \<and>
      air res = map (\<lambda>v. 0.5 * self_Cd c * self_A c * self_rho c * (v / 3.6) ^ 2) vs \<and>
      grade res = map (\<lambda>v. 0) vs \<and>
      total res = map (\<lambda>v. self_m c * self_g c * self_f c
                    + 0.5 * self_Cd c * self_A c * self_rho c * (v / 3.6) ^ 2 + 0) vs) \<and>
   calculate_resistance_force c (map uminus vs) = calculate_resistance_force c vs"
  by (simp add: calculate_resistance_force_eq resistance_total_def o_def)

subsection \<open>Maximum speed\<close>

text \<open>
  Claim C4 as stated fails: no flag is returned.  For the vehicle whose engine delivers no
  torque the tractive force is below the resistance at every grid point; the maximum speed
  computed is the bare integer 0, and the report is the dict of four numbers, without any
  entry that tells this outcome apart.
\<close>

theorem max_speed_no_flag_counterexample:
  "intersection_idx no_torque_vehicle 5 = Inr [] \<and>
   max_speed no_torque_vehicle 5 = Inr (IntValue 0) \<and>
   calculate_performance_indicators no_torque_vehicle =
     Inr \<lparr> max_speed_kmh = IntValue 0, max_grade_deg = 0, max_grade_percent = 0,
           accel_time_0_100 = 11.1 \<rparr>"
proof -
  have "max_speed no_torque_vehicle 5 = Inr (IntValue 0)"
    by (simp add: max_speed_def no_torque_idx)
  with no_torque_idx no_torque_report show ?thesis by (intro conjI)
qed

text \<open>
  Claim C4, amended.  For every gear, on the grid of 500 speeds from 0 to 220 km/h, the
  maximum speed is the last, and so the highest, grid speed at which the gear's
  interpolated tractive force is at least the total resistance; when the tractive force
  is below the resistance at every grid point it is the integer 0, and nothing else is
  returned: no flag.  That outcome differs from a top speed of zero, which is the float
  0.0 of grid index 0, only in the type of the number.  The report holds the value
  computed for one gear, rounded to one decimal, an int staying an int.
\<close>

theorem max_speed_last_grid_intersection:
  assumes "divisors_nonzero c" and "intersection_idx c gear = Inr idx"
  shows "(\<exists>v ft ft_interp. calculate_tractive_force c gear = Inr (v, ft) \<and>
            interp speed_range v ft = Inr ft_interp \<and> length ft_interp = 500 \<and>
            set idx = {i. i < 500 \<and> resistance_total c (speed_range ! i) \<le> ft_interp ! i}) \<and>
         (idx = [] \<longrightarrow> max_speed c gear = Inr (IntValue 0)) \<and>
         (idx \<noteq> [] \<longrightarrow> last idx \<in> set idx \<and>
            max_speed c gear = Inr (FloatValue (speed_range ! last idx)) \<and>
            (\<forall>i \<in> set idx. speed_range ! i \<le> speed_range ! last idx)) \<and>
         (idx \<noteq> [] \<and> last idx = 0 \<longrightarrow> max_speed c gear = Inr (FloatValue 0)) \<and>
         IntValue 0 \<noteq> FloatValue 0 \<and>
         (\<forall>res. calculate_performance_indicators c = Inr res \<longrightarrow>
            (\<exists>g v. max_speed c g = Inr v \<and> max_speed_kmh res = round_scalar v))"
proof -
  from intersection_idx_char[OF assms(2)] obtain v_5 ft_5 ft_interp
    where tf: "calculate_tractive_force c gear = Inr (v_5, ft_5)"
      and ip: "interp speed_range v_5 ft_5 = Inr ft_interp"
      and len: "length ft_interp = 500"
      and w: "idx = where_ge ft_interp (map (resistance_total c) speed_range)"
    by blast
  have set_idx: "set idx = {i. i < 500 \<and> resistance_total c (speed_range ! i) \<le> ft_interp ! i}"
    unfolding w where_ge_set by (auto simp add: len speed_range_length)
  have sorted_idx: "sorted idx" unfolding w by (rule where_ge_sorted)
  have ms: "max_speed c gear
              = Inr (if idx = [] then IntValue 0 else FloatValue (speed_range ! last idx))"
    using assms(2) by (simp add: max_speed_def)
  have first: "\<exists>v ft ft_interp. calculate_tractive_force c gear = Inr (v, ft) \<and>
            interp speed_range v ft = Inr ft_interp \<and> length ft_interp = 500 \<and>
            set idx = {i. i < 500 \<and> resistance_total c (speed_range ! i) \<le> ft_interp ! i}"
    using tf ip len set_idx by blast
  have empty: "idx = [] \<longrightarrow> max_speed c gear = Inr (IntValue 0)" using ms by simp
  have nonempty: "idx \<noteq> [] \<longrightarrow> last idx \<in> set idx \<and>
            max_speed c gear = Inr (FloatValue (speed_range ! last idx)) \<and>
            (\<forall>i \<in> set idx. speed_range ! i \<le> speed_range ! last idx)"
  proof
    assume ne: "idx \<noteq> []"
    from sorted_last_greatest[OF sorted_idx ne]
    have l: "last idx \<in> set idx" and g: "\<forall>x \<in> set idx. x \<le> last idx" by simp_all
    from l have l500: "last idx < 500" unfolding set_idx by simp
    have "\<forall>i \<in> set idx. speed_range ! i \<le> speed_range ! last idx"
    proof
      fix i assume "i \<in> set idx"
      with g have "i \<le> last idx" by simp
      then show "speed_range ! i \<le> speed_range ! last idx"
        using l500 by (rule speed_range_mono)
    qed
    with l ms ne show "last idx \<in> set idx \<and>
            max_speed c gear = Inr (FloatValue (speed_range ! last idx)) \<and>
            (\<forall>i \<in> set idx. speed_range ! i \<le> speed_range ! last idx)"
      by simp
  qed
  have zero: "idx \<noteq> [] \<and> last idx = 0 \<longrightarrow> max_speed c gear = Inr (FloatValue 0)"
    using ms by (simp add: speed_range_nth)
  have distinct: "IntValue 0 \<noteq> FloatValue 0" by simp
  have rep: "\<forall>res. calculate_performance_indicators c = Inr res \<longrightarrow>
            (\<exists>g v. max_speed c g = Inr v \<and> max_speed_kmh res = round_scalar v)"
  proof (intro allI impI)
    fix res assume r: "calculate_performance_indicators c = Inr res"
    then obtain v where "max_speed c 5 = Inr v" "max_speed_kmh res = round_scalar v"
      by (auto simp add: calculate_performance_indicators_def Let_def split: sum.splits)
    then show "\<exists>g v. max_speed c g = Inr v \<and> max_speed_kmh res = round_scalar v" by blast
  qed
  from first empty nonempty zero distinct rep show ?thesis by (intro conjI)
qed

theorem max_speed_last_grid_intersection_witness:
  "divisors_nonzero VehiclePerformanceAnalysis \<and>
   intersection_idx VehiclePerformanceAnalysis 5 = Inr [0..<500] \<and>
   max_speed VehiclePerformanceAnalysis 5 = Inr (FloatValue (speed_range ! 499)) \<and>
   divisors_nonzero no_torque_vehicle \<and>
   intersection_idx no_torque_vehicle 5 = Inr [] \<and>
   max_speed no_torque_vehicle 5 = Inr (IntValue 0) \<and>
   divisors_nonzero no_torque_frictionless_vehicle \<and>
   intersection_idx no_torque_frictionless_vehicle 5 = Inr [0] \<and>
   max_speed no_torque_frictionless_vehicle 5 = Inr (FloatValue 0)"
proof -
  have l: "last [0..<500] = (499 :: nat)" by simp
  have n: "[0..<500] \<noteq> []" by simp
  from max_speed_last_grid_intersection[OF configured_divisors configured_idx] n
  have a: "max_speed VehiclePerformanceAnalysis 5 = Inr (FloatValue (speed_range ! last [0..<500]))"
    by blast
  from max_speed_last_grid_intersection[OF no_torque_divisors no_torque_idx]
  have b: "max_speed no_torque_vehicle 5 = Inr (IntValue 0)" by blast
  from max_speed_last_grid_intersection[OF no_torque_frictionless_divisors
      no_torque_frictionless_idx]
  have "[0 :: nat] \<noteq> [] \<and> last [0 :: nat] = 0
          \<longrightarrow> max_speed no_torque_frictionless_vehicle 5 = Inr (FloatValue 0)"
    by blast
  then have c: "max_speed no_torque_frictionless_vehicle 5 = Inr (FloatValue 0)" by simp
  from a l have a': "max_speed VehiclePerformanceAnalysis 5 = Inr (FloatValue (speed_range ! 499))"
    by simp
  from configured_divisors configured_idx a' no_torque_divisors no_torque_idx b
    no_torque_frictionless_divisors no_torque_frictionless_idx c
  show ?thesis by (intro conjI)
qed

subsection \<open>Maximum gradeability\<close>

text \<open>
  Claim C7.  The gradeability computation (gear 1, probe speed 10 km/h) takes the tractive
  force at the sampled speed nearest to the probe speed, subtracts the resistance at
  exactly the probe speed and, when this available force is positive, divides it by
  \<open>m g\<close> and clamps the quotient into \<open>[0, 0.5]\<close> to get \<open>sin \<theta>\<close>.  Hence for every
  instance on which the available force is computed the angle is between 0 and
  \<open>arcsin 0.5\<close>, which is 30 degrees, it is exactly 30 when the quotient is at least 0.5
  however large, the reported (rounded) angle does not exceed 30 either, and when the
  available force is not positive the angle and the percentage are both 0 and nothing
  is raised.
\<close>

theorem max_gradeability_clamped:
  assumes "divisors_nonzero c" and "available_force c = Inr avail"
  shows "(\<exists>v_1st ft_1st idx. calculate_tractive_force c 1 = Inr (v_1st, ft_1st) \<and>
           idx < length v_1st \<and> idx < length ft_1st \<and>
           (\<forall>j<length v_1st. \<bar>v_1st ! idx - 10\<bar> \<le> \<bar>v_1st ! j - 10\<bar>) \<and>
           avail = ft_1st ! idx - resistance_total c 10) \<and>
         (\<exists>deg pct sin_theta. max_grade c = Inr (deg, pct) \<and>
            sin_theta = min (max (avail / (self_m c * self_g c)) 0) (1 / 2) \<and>
            (0 < avail \<longrightarrow> deg = arcsin sin_theta * 180 / pi \<and> pct = tan (arcsin sin_theta) * 100) \<and>
            (avail \<le> 0 \<longrightarrow> deg = 0 \<and> pct = 0) \<and>
            0 \<le> deg \<and> deg \<le> 30 \<and> arcsin (1 / 2) * 180 / pi = 30 \<and>
            (0 < avail \<and> 1 / 2 \<le> avail / (self_m c * self_g c) \<longrightarrow> deg = 30) \<and>
            (\<forall>res. calculate_performance_indicators c = Inr res \<longrightarrow>
               max_grade_deg res = round1 deg \<and> max_grade_percent res = round1 pct \<and>
               max_grade_deg res \<le> 30 \<and>
               (avail \<le> 0 \<longrightarrow> max_grade_deg res = 0 \<and> max_grade_percent res = 0)))"
proof -
  define sin_theta where "sin_theta = min (max (avail / (self_m c * self_g c)) 0) (1 / 2)"
  define deg where "deg = (if avail > 0 then arcsin sin_theta * 180 / pi else 0)"
  define pct where "pct = (if avail > 0 then tan (arcsin sin_theta) * 100 else 0)"
  have mg: "max_grade c = Inr (deg, pct)"
    unfolding max_grade_char[OF assms(2)] deg_def pct_def sin_theta_def by simp
  have s1: "0 \<le> sin_theta" unfolding sin_theta_def by (rule min.boundedI) simp_all
  have s2: "sin_theta \<le> 1 / 2" unfolding sin_theta_def by (rule min.cobounded2)
  note s = s1 s2
  have b: "0 \<le> deg \<and> deg \<le> 30"
    unfolding deg_def using arcsin_clamped_bounds[OF s] by simp
  have thirty: "arcsin (1 / 2) * 180 / pi = (30 :: real)"
    by (simp only: arcsin_half) simp
  have clamp: "0 < avail \<and> 1 / 2 \<le> avail / (self_m c * self_g c) \<longrightarrow> deg = 30"
  proof
    assume a: "0 < avail \<and> 1 / 2 \<le> avail / (self_m c * self_g c)"
    define q where "q = avail / (self_m c * self_g c)"
    from a have "1 / 2 \<le> q" unfolding q_def by simp
    then have "min (max q 0) (1 / 2) = 1 / 2" by (simp add: min_def max_def)
    then have h: "sin_theta = 1 / 2" unfolding sin_theta_def q_def .
    have "deg = arcsin sin_theta * 180 / pi" using a unfolding deg_def by simp
    also have "\<dots> = 30" unfolding h by (rule thirty)
    finally show "deg = 30" .
  qed
  have rep: "\<forall>res. calculate_performance_indicators c = Inr res \<longrightarrow>
               max_grade_deg res = round1 deg \<and> max_grade_percent res = round1 pct \<and>
               max_grade_deg res \<le> 30 \<and>
               (avail \<le> 0 \<longrightarrow> max_grade_deg res = 0 \<and> max_grade_percent res = 0)"
  proof (intro allI impI)
    fix res assume r: "calculate_performance_indicators c = Inr res"
    then have f: "max_grade_deg res = round1 deg" "max_grade_percent res = round1 pct"
      using mg by (auto simp add: calculate_performance_indicators_def Let_def split: sum.splits)
    have "round1 deg \<le> of_int 300 / 10"
      by (rule round1_le) (use b in simp)
    then have le: "round1 deg \<le> 30" by simp
    have z: "avail \<le> 0 \<longrightarrow> round1 deg = 0 \<and> round1 pct = 0"
      unfolding deg_def pct_def by (simp add: round1_zero)
    from f le z show "max_grade_deg res = round1 deg \<and> max_grade_percent res = round1 pct \<and>
               max_grade_deg res \<le> 30 \<and>
               (avail \<le> 0 \<longrightarrow> max_grade_deg res = 0 \<and> max_grade_percent res = 0)"
      by simp
  qed
  have body: "max_grade c = Inr (deg, pct) \<and>
            sin_theta = min (max (avail / (self_m c * self_g c)) 0) (1 / 2) \<and>
            (0 < avail \<longrightarrow> deg = arcsin sin_theta * 180 / pi \<and> pct = tan (arcsin sin_theta) * 100) \<and>
            (avail \<le> 0 \<longrightarrow> deg = 0 \<and> pct = 0) \<and>
            0 \<le> deg \<and> deg \<le> 30 \<and> arcsin (1 / 2) * 180 / pi = 30 \<and>
            (0 < avail \<and> 1 / 2 \<le> avail / (self_m c * self_g c) \<longrightarrow> deg = 30) \<and>
            (\<forall>res. calculate_performance_indicators c = Inr res \<longrightarrow>
               max_grade_deg res = round1 deg \<and> max_grade_percent res = round1 pct \<and>
               max_grade_deg res \<le> 30 \<and>
               (avail \<le> 0 \<longrightarrow> max_grade_deg res = 0 \<and> max_grade_percent res = 0))"
  proof (intro conjI)
    show "max_grade c = Inr (deg, pct)" by (rule mg)
    show "sin_theta = min (max (avail / (self_m c * self_g c)) 0) (1 / 2)" by (rule sin_theta_def)
    show "0 < avail \<longrightarrow> deg = arcsin sin_theta * 180 / pi \<and> pct = tan (arcsin sin_theta) * 100"
      unfolding deg_def pct_def by simp
    show "avail \<le> 0 \<longrightarrow> deg = 0 \<and> pct = 0" unfolding deg_def pct_def by simp
    show "0 \<le> deg" using b by simp
    show "deg \<le> 30" using b by simp
    show "arcsin (1 / 2) * 180 / pi = 30" by (rule thirty)
    show "0 < avail \<and> 1 / 2 \<le> avail / (self_m c * self_g c) \<longrightarrow> deg = 30" by (rule clamp)
    show "\<forall>res. calculate_performance_indicators c = Inr res \<longrightarrow>
               max_grade_deg res = round1 deg \<and> max_grade_percent res = round1 pct \<and>
               max_grade_deg res \<le> 30 \<and>
               (avail \<le> 0 \<longrightarrow> max_grade_deg res = 0 \<and> max_grade_percent res = 0)"
      by (rule rep)
  qed
  have second: "\<exists>deg pct sin_theta. max_grade c = Inr (deg, pct) \<and>
            sin_theta = min (max (avail / (self_m c * self_g c)) 0) (1 / 2) \<and>
            (0 < avail \<longrightarrow> deg = arcsin sin_theta * 180 / pi \<and> pct = tan (arcsin sin_theta) * 100) \<and>
            (avail \<le> 0 \<longrightarrow> deg = 0 \<and> pct = 0) \<and>
            0 \<le> deg \<and> deg \<le> 30 \<and> arcsin (1 / 2) * 180 / pi = 30 \<and>
            (0 < avail \<and> 1 / 2 \<le> avail / (self_m c * self_g c) \<longrightarrow> deg = 30) \<and>
            (\<forall>res. calculate_performance_indicators c = Inr res \<longrightarrow>
               max_grade_deg res = round1 deg \<and> max_grade_percent res = round1 pct \<and>
               max_grade_deg res \<le> 30 \<and>
               (avail \<le> 0 \<longrightarrow> max_grade_deg res = 0 \<and> max_grade_percent res = 0))"
    using body by - (rule exI[of _ deg], rule exI[of _ pct], rule exI[of _ sin_theta], assumption)
  from available_force_char[OF assms(2)] second show ?thesis by (rule conjI)
qed

theorem max_gradeability_clamped_witness:
  "divisors_nonzero VehiclePerformanceAnalysis \<and>
   available_force VehiclePerformanceAnalysis = Inr (9058808401 / 65880) \<and>
   (\<exists>pct. max_grade VehiclePerformanceAnalysis = Inr (30, pct)) \<and>
   divisors_nonzero no_torque_vehicle \<and>
   available_force no_torque_vehicle = Inr (- resistance_total no_torque_vehicle 10) \<and>
   max_grade no_torque_vehicle = Inr (0, 0)"
proof -
  have p: "(0 :: real) < 9058808401 / 65880" by simp
  from max_gradeability_clamped[OF configured_divisors configured_available_force]
  obtain deg pct where mg: "max_grade VehiclePerformanceAnalysis = Inr (deg, pct)"
    and cl: "0 < (9058808401 / 65880 :: real) \<and>
             1 / 2 \<le> 9058808401 / 65880
                / (self_m VehiclePerformanceAnalysis * self_g VehiclePerformanceAnalysis)
             \<longrightarrow> deg = 30"
    by blast
  from cl p configured_ratio have "deg = 30" by blast
  with mg have a: "\<exists>pct. max_grade VehiclePerformanceAnalysis = Inr (30, pct)" by blast
  have r10: "0 \<le> resistance_total no_torque_vehicle 10"
    unfolding no_torque_vehicle_facts(6) by simp
  have av: "available_force no_torque_vehicle = Inr (- resistance_total no_torque_vehicle 10)"
    by (rule zero_torque_indicators(2)[OF no_torque_vehicle_facts(1-5) r10])
  from r10 have neg: "- resistance_total no_torque_vehicle 10 \<le> 0" by simp
  from max_gradeability_clamped[OF no_torque_divisors av]
  obtain deg0 pct0 where mg0: "max_grade no_torque_vehicle = Inr (deg0, pct0)"
    and z: "- resistance_total no_torque_vehicle 10 \<le> 0 \<longrightarrow> deg0 = 0 \<and> pct0 = 0"
    by blast
  from z neg mg0 have b: "max_grade no_torque_vehicle = Inr (0, 0)" by blast
  from configured_divisors configured_available_force a no_torque_divisors av b
  show ?thesis by (intro conjI)
qed

end
